theory Spec2Isabelle
  imports Complex_Main "HOL-Library.AList"
begin

section \<open>Data model\<close>

text \<open>
  The repository holds the game engine twice: \<^verbatim>\<open>web-ui/src/farkle-engine.ts\<close> (class
  \<^verbatim>\<open>FarkleEngine\<close>, TypeScript) and \<^verbatim>\<open>src/farkle_core.cpp\<close> (class \<^verbatim>\<open>FarkleEngine\<close>, C++,
  exported to Python). Both are embedded. The TypeScript engine keeps the names of its
  source; where the C++ engine uses the same name, the C++ one carries the suffix
  \<open>_cpp\<close>. The die and the two enumerations are the same in both files and are shared.

  Numbers are modelled as unbounded integers: the scores of the TypeScript engine are
  doubles holding integers far below \<open>2^53\<close>; the C++ \<^verbatim>\<open>int\<close> is taken without overflow
  (signed overflow is undefined in C++). Counts and the player index are natural numbers;
  no operation of either engine makes the index negative.
\<close>

datatype DieState = Rolled | Kept | Banked

datatype GameStatus = Rolling | Farkle | Bust | Win

text \<open>\<^verbatim>\<open>Die { id, value, state }\<close>\<close>

record Die =
  die_id :: int
  die_value :: int
  die_state :: DieState

section \<open>Counting face values\<close>

text \<open>
  Both engines count face values in a dictionary (\<^verbatim>\<open>Record<number, number>\<close>,
  \<^verbatim>\<open>std::map<int, int>\<close>): an association list here. \<open>lookup0\<close> is the read with default
  \<open>0\<close> (\<^verbatim>\<open>counts[i] || 0\<close> in TypeScript, \<^verbatim>\<open>counts[i]\<close> of a \<^verbatim>\<open>std::map\<close> in C++), and \<open>incr\<close>
  is \<^verbatim>\<open>counts[v] = (counts[v] || 0) + 1\<close>, respectively \<^verbatim>\<open>counts[v]++\<close>.
\<close>

definition lookup0 :: "(int \<times> nat) list \<Rightarrow> int \<Rightarrow> nat" where
  "lookup0 counts v = (case map_of counts v of None \<Rightarrow> 0 | Some c \<Rightarrow> c)"

definition incr :: "int \<Rightarrow> (int \<times> nat) list \<Rightarrow> (int \<times> nat) list" where
  "incr v counts = AList.update v (lookup0 counts v + 1) counts"

text \<open>TypeScript \<^verbatim>\<open>getCounts(dice)\<close>.\<close>

definition getCounts :: "Die list \<Rightarrow> (int \<times> nat) list" where
  "getCounts ds = fold (\<lambda>d counts. incr (die_value d) counts) ds []"

text \<open>C++ \<^verbatim>\<open>for (int v : values) counts[v]++;\<close>\<close>

definition count_values :: "int list \<Rightarrow> (int \<times> nat) list" where
  "count_values vs = fold incr vs []"

section \<open>Scoring evaluator\<close>

text \<open>
  TypeScript \<^verbatim>\<open>evaluateScoring\<close>: for each face \<open>i = 1..6\<close>, the inner loop
  \<^verbatim>\<open>while (count >= 3) { score += (i === 1 ? 1000 : i * 100); count -= 3; }\<close>
  and then the leftover ones and fives.
\<close>

fun tripleLoop :: "int \<Rightarrow> nat \<Rightarrow> int \<Rightarrow> int \<times> nat" where
  "tripleLoop i count score =
     (if count \<ge> 3 then tripleLoop i (count - 3) (score + (if i = 1 then 1000 else i * 100))
      else (score, count))"

declare tripleLoop.simps [simp del]

definition scoreFace :: "(int \<times> nat) list \<Rightarrow> int \<Rightarrow> int \<Rightarrow> int" where
  "scoreFace counts i score =
     (let (score1, count) = tripleLoop i (lookup0 counts i) score;
          score2 = (if i = 1 then score1 + int count * 100 else score1);
          score3 = (if i = 5 then score2 + int count * 50 else score2)
      in score3)"

definition evaluateScoring :: "Die list \<Rightarrow> int" where
  "evaluateScoring ds = fold (scoreFace (getCounts ds)) [1, 2, 3, 4, 5, 6] 0"

text \<open>
  C++ \<^verbatim>\<open>evaluate_scoring\<close>: a face with \<open>count \<ge> 3\<close> scores \<^verbatim>\<open>base * (1 << (count - 3))\<close> and
  leaves no singles.
\<close>

definition score_face :: "(int \<times> nat) list \<Rightarrow> int \<Rightarrow> int \<Rightarrow> int" where
  "score_face counts i score =
     (let count = lookup0 counts i;
          (score1, count1) =
             (if count \<ge> 3
              then (score + (if i = 1 then 1000 else i * 100) * 2 ^ (count - 3), 0)
              else (score, count));
          score2 = (if i = 1 then score1 + int count1 * 100 else score1);
          score3 = (if i = 5 then score2 + int count1 * 50 else score2)
      in score3)"

definition evaluate_scoring :: "int list \<Rightarrow> int" where
  "evaluate_scoring vs = fold (score_face (count_values vs)) [1, 2, 3, 4, 5, 6] 0"

text \<open>
  The rule of the specification, in its words: a face value with count \<open>c \<ge> 3\<close> contributes
  \<open>base * 2^(c - 3)\<close>, where \<open>base\<close> is 1000 for ones and \<open>value * 100\<close> otherwise; below three,
  ones score 100 each, fives 50 each, the other faces nothing.
\<close>

definition base_score :: "int \<Rightarrow> int" where
  "base_score v = (if v = 1 then 1000 else v * 100)"

definition face_score :: "int \<Rightarrow> nat \<Rightarrow> int" where
  "face_score v c =
     (if c \<ge> 3 then base_score v * 2 ^ (c - 3)
      else if v = 1 then 100 * int c
      else if v = 5 then 50 * int c
      else 0)"

definition doubling_score :: "int list \<Rightarrow> int" where
  "doubling_score vs = (\<Sum>v\<leftarrow>[1, 2, 3, 4, 5, 6]. face_score v (count_list vs v))"

section \<open>Dice pool operations shared by both engines\<close>

text \<open>
  Both files mutate the dice in place. The model returns the new list. The helpers below
  are the loops over the pool that occur in both files.
\<close>

definition setState :: "DieState \<Rightarrow> Die \<Rightarrow> Die" where
  "setState s d = d\<lparr>die_state := s\<rparr>"

text \<open>Every Kept die becomes Banked (step 1 of \<^verbatim>\<open>roll\<close>, and \<^verbatim>\<open>bank\<close>).\<close>

definition bankKept :: "Die list \<Rightarrow> Die list" where
  "bankKept ds = map (\<lambda>d. if die_state d = Kept then setState Banked d else d) ds"

text \<open>\<^verbatim>\<open>for (auto& d : dice) d.state = ROLLED\<close>, \<^verbatim>\<open>this.dice.forEach(d => d.state = 'rolled')\<close>.\<close>

definition resetAll :: "Die list \<Rightarrow> Die list" where
  "resetAll ds = map (setState Rolled) ds"

text \<open>
  Step 3 of \<^verbatim>\<open>roll\<close>: every die in state Rolled, in pool order, takes the next draw of
  the random source; \<open>draw k\<close> is the \<open>k\<close>-th draw of this call.
\<close>

fun assignValues :: "(nat \<Rightarrow> int) \<Rightarrow> nat \<Rightarrow> Die list \<Rightarrow> Die list" where
  "assignValues draw k [] = []"
| "assignValues draw k (d # ds) =
     (if die_state d = Rolled then d\<lparr>die_value := draw k\<rparr> # assignValues draw (Suc k) ds
      else d # assignValues draw k ds)"

text \<open>Un-keep: every Kept die of the value goes back to Rolled.\<close>

definition unkeep :: "int \<Rightarrow> Die list \<Rightarrow> Die list" where
  "unkeep val ds =
     map (\<lambda>d. if die_value d = val \<and> die_state d = Kept then setState Rolled d else d) ds"

text \<open>
  The C++ loop
  \<^verbatim>\<open>for (auto& d : dice) if (d.value == val && d.state == ROLLED && needed > 0) { d.state = KEPT; needed--; }\<close>.
  The TypeScript \<^verbatim>\<open>rolledOfVal.slice(0, 3).forEach(d => d.state = 'kept')\<close> marks the first
  three Rolled dice of the value, which is this loop with \<open>needed = 3\<close>.
\<close>

fun promote :: "nat \<Rightarrow> int \<Rightarrow> Die list \<Rightarrow> Die list" where
  "promote needed val [] = []"
| "promote needed val (d # ds) =
     (if die_value d = val \<and> die_state d = Rolled \<and> needed > 0
      then setState Kept d # promote (needed - 1) val ds
      else d # promote needed val ds)"

text \<open>
  \<^verbatim>\<open>die.state = 'kept'\<close> / \<^verbatim>\<open>it->state = KEPT\<close> on the die found by id: the first die of
  the pool with that id.
\<close>

fun keepDie :: "int \<Rightarrow> Die list \<Rightarrow> Die list" where
  "keepDie dieId [] = []"
| "keepDie dieId (d # ds) =
     (if die_id d = dieId then setState Kept d # ds else d # keepDie dieId ds)"

definition findDie :: "int \<Rightarrow> Die list \<Rightarrow> Die option" where
  "findDie dieId ds = find (\<lambda>d. die_id d = dieId) ds"

definition rolledDice :: "Die list \<Rightarrow> Die list" where
  "rolledDice ds = filter (\<lambda>d. die_state d = Rolled) ds"

definition keptDice :: "Die list \<Rightarrow> Die list" where
  "keptDice ds = filter (\<lambda>d. die_state d = Kept) ds"

text \<open>Errors of the two languages, as values.\<close>

datatype error = TypeError | UndefinedBehaviour

section \<open>The TypeScript engine\<close>

datatype PlayerType = human | computer

record Player =
  player_id :: nat
  player_type :: PlayerType
  name :: string
  score :: int

record FarkleEngine =
  players :: "Player list"
  currentPlayerIndex :: nat
  dice :: "Die list"
  turnScore :: int
  currentKeepScore :: int
  status :: GameStatus
  message :: string

text \<open>
  \<^verbatim>\<open>Math.ceil(Math.random() * 6)\<close>, where \<open>r\<close> is the result of \<^verbatim>\<open>Math.random()\<close>: a number
  with \<open>0 \<le> r < 1\<close>. The product is taken in the reals; the doubles of JavaScript round
  it, which moves no result out of the range the reals give.
\<close>

definition rollDie :: "real \<Rightarrow> int" where
  "rollDie r = \<lceil>r * 6\<rceil>"

definition admissible :: "(nat \<Rightarrow> real) \<Rightarrow> bool" where
  "admissible rnd = (\<forall>k. 0 \<le> rnd k \<and> rnd k < 1)"

text \<open>\<^verbatim>\<open>createDice\<close>: six dice, ids 0 to 5, each with a fresh random value, all Rolled.\<close>

definition createDice :: "(nat \<Rightarrow> real) \<Rightarrow> Die list" where
  "createDice rnd =
     map (\<lambda>i. \<lparr>die_id = int i, die_value = rollDie (rnd i), die_state = Rolled\<rparr>) [0..<6]"

text \<open>The constructor. It does not call \<^verbatim>\<open>roll\<close>.\<close>

definition newFarkleEngine :: "(nat \<Rightarrow> real) \<Rightarrow> string list \<Rightarrow> FarkleEngine" where
  "newFarkleEngine rnd playerNames =
     \<lparr>players = map (\<lambda>(i, n). \<lparr>player_id = i,
                                player_type = (if i = 1 then computer else human),
                                name = n, score = 0\<rparr>) (enumerate 0 playerNames),
      currentPlayerIndex = 0,
      dice = createDice rnd,
      turnScore = 0,
      currentKeepScore = 0,
      status = Rolling,
      message = ''Welcome to Farkle! Roll to start.''\<rparr>"

text \<open>
  \<^verbatim>\<open>counts[1] > 0 || counts[5] > 0 || Object.values(counts).some(c => c >= 3)\<close>; a missing
  key reads as \<^verbatim>\<open>undefined\<close>, and \<^verbatim>\<open>undefined > 0\<close> is false.
\<close>

definition hasScore :: "(int \<times> nat) list \<Rightarrow> bool" where
  "hasScore counts =
     (lookup0 counts 1 > 0 \<or> lookup0 counts 5 > 0 \<or> list_ex (\<lambda>c. c \<ge> 3) (map snd counts))"

text \<open>
  \<^verbatim>\<open>roll()\<close>; \<open>rnd k\<close> is the result of the \<open>k\<close>-th call of \<^verbatim>\<open>Math.random()\<close> during the call.
  \<^verbatim>\<open>diceToRoll\<close> holds the dice objects in state Rolled, so after the values are assigned it
  is the list of the Rolled dice of the pool.
\<close>

definition roll :: "(nat \<Rightarrow> real) \<Rightarrow> FarkleEngine \<Rightarrow> FarkleEngine" where
  "roll rnd e =
     (let e1 = (if length (keptDice (dice e)) > 0
                then e\<lparr>dice := bankKept (dice e),
                       turnScore := turnScore e + currentKeepScore e,
                       currentKeepScore := 0\<rparr>
                else e);
          e2 = (if length (rolledDice (dice e1)) = 0
                then e1\<lparr>dice := resetAll (dice e1),
                        message := ''Hot Hand! Rolling all 6 dice!''\<rparr>
                else e1);
          e3 = e2\<lparr>dice := assignValues (\<lambda>k. rollDie (rnd k)) 0 (dice e2)\<rparr>;
          counts = getCounts (rolledDice (dice e3))
      in if \<not> hasScore counts
         then e3\<lparr>status := Farkle, message := ''Farkle! No points.'',
                 turnScore := 0, currentKeepScore := 0\<rparr>
         else e3\<lparr>status := Rolling, message := ''Select dice to keep.''\<rparr>)"

text \<open>\<^verbatim>\<open>recalcKeepScore()\<close> and \<^verbatim>\<open>toggleKeep(dieId)\<close>; each \<^verbatim>\<open>return\<close> is a branch that ends in \<open>e\<close>.\<close>

definition recalcKeepScore :: "FarkleEngine \<Rightarrow> FarkleEngine" where
  "recalcKeepScore e = e\<lparr>currentKeepScore := evaluateScoring (keptDice (dice e))\<rparr>"

definition toggleKeep :: "int \<Rightarrow> FarkleEngine \<Rightarrow> FarkleEngine" where
  "toggleKeep dieId e =
     (if status e \<noteq> Rolling then e
      else case findDie dieId (dice e) of
        None \<Rightarrow> e
      | Some die \<Rightarrow>
          if die_state die = Banked then e
          else if die_state die = Kept
          then recalcKeepScore (e\<lparr>dice := unkeep (die_value die) (dice e)\<rparr>)
          else
            let val = die_value die;
                rolledOfVal = filter (\<lambda>d. die_value d = val \<and> die_state d = Rolled) (dice e)
            in if length rolledOfVal \<ge> 3
               then recalcKeepScore (e\<lparr>dice := promote 3 val (dice e)\<rparr>)
               else if val = 1 \<or> val = 5
               then recalcKeepScore (e\<lparr>dice := keepDie dieId (dice e)\<rparr>)
               else e)"

text \<open>
  \<^verbatim>\<open>passTurn\<close>. With no players the index is \<^verbatim>\<open>NaN\<close> and reading \<^verbatim>\<open>.name\<close> of
  \<^verbatim>\<open>undefined\<close> throws a TypeError. The method replaces the pool by \<^verbatim>\<open>createDice()\<close> and
  does not call \<^verbatim>\<open>roll\<close>.
\<close>

definition passTurn :: "(nat \<Rightarrow> real) \<Rightarrow> FarkleEngine \<Rightarrow> error + FarkleEngine" where
  "passTurn rnd e =
     (if players e = [] then Inl TypeError
      else
        let i = (currentPlayerIndex e + 1) mod length (players e)
        in Inr (e\<lparr>turnScore := 0,
                   currentKeepScore := 0,
                   currentPlayerIndex := i,
                   message := name (players e ! i) @ [CHR 0x27] @ ''s Turn'',
                   dice := createDice rnd,
                   status := Rolling\<rparr>))"

text \<open>
  \<^verbatim>\<open>bank\<close>. \<^verbatim>\<open>this.players[this.currentPlayerIndex].score\<close> throws a TypeError when the
  index names no player.
\<close>

definition bank :: "(nat \<Rightarrow> real) \<Rightarrow> FarkleEngine \<Rightarrow> error + FarkleEngine" where
  "bank rnd e =
     (if currentKeepScore e = 0 \<and> turnScore e = 0 then Inr e
      else if currentPlayerIndex e \<ge> length (players e) then Inl TypeError
      else
        let i = currentPlayerIndex e;
            t = turnScore e + currentKeepScore e;
            p = players e ! i;
            e1 = e\<lparr>turnScore := t,
                   currentKeepScore := 0,
                   dice := bankKept (dice e),
                   players := (players e)[i := p\<lparr>score := score p + t\<rparr>]\<rparr>
        in if score (players e1 ! i) \<ge> 10000
           then Inr (e1\<lparr>status := Win, message := name (players e1 ! i) @ '' Wins!''\<rparr>)
           else passTurn rnd e1)"

text \<open>
  The states that construction, \<^verbatim>\<open>roll\<close>, \<^verbatim>\<open>toggleKeep\<close>, \<^verbatim>\<open>bank\<close> and \<^verbatim>\<open>passTurn\<close> reach,
  each call with any random source. The heuristic player \<^verbatim>\<open>computerMove\<close> is not embedded.
\<close>

inductive reachable :: "FarkleEngine \<Rightarrow> bool" where
  r_new: "reachable (newFarkleEngine rnd playerNames)"
| r_roll: "reachable e \<Longrightarrow> reachable (roll rnd e)"
| r_toggleKeep: "reachable e \<Longrightarrow> reachable (toggleKeep dieId e)"
| r_bank: "reachable e \<Longrightarrow> bank rnd e = Inr e' \<Longrightarrow> reachable e'"
| r_passTurn: "reachable e \<Longrightarrow> passTurn rnd e = Inr e' \<Longrightarrow> reachable e'"

section \<open>The C++ engine\<close>

record FarkleEngine_cpp =
  player_scores :: "int list"
  current_player_index :: nat
  dice_cpp :: "Die list"
  turn_score :: int
  current_keep_score :: int
  status_cpp :: GameStatus
  message_cpp :: string

text \<open>
  \<^verbatim>\<open>std::uniform_int_distribution<> dis(1, 6)\<close>: \<open>gen k\<close> is the \<open>k\<close>-th value \<^verbatim>\<open>dis(gen)\<close>
  returns during a call; the distribution returns values from 1 to 6.
\<close>

definition admissible_cpp :: "(nat \<Rightarrow> int) \<Rightarrow> bool" where
  "admissible_cpp gen = (\<forall>k. 1 \<le> gen k \<and> gen k \<le> 6)"

text \<open>
  \<^verbatim>\<open>has_scoring_potential\<close>. Reading \<^verbatim>\<open>counts[1]\<close> and \<^verbatim>\<open>counts[5]\<close> inserts missing keys with
  count 0, which the loop over the entries then passes by.
\<close>

definition has_scoring_potential :: "int list \<Rightarrow> bool" where
  "has_scoring_potential values_cpp =
     (let counts = count_values values_cpp
      in if lookup0 counts 1 > 0 \<or> lookup0 counts 5 > 0 then True
         else list_ex (\<lambda>(val, count). count \<ge> 3) counts)"

text \<open>\<^verbatim>\<open>roll()\<close>: unlike the TypeScript method, step 1 adds the keep score in every case.\<close>

definition roll_cpp :: "(nat \<Rightarrow> int) \<Rightarrow> FarkleEngine_cpp \<Rightarrow> FarkleEngine_cpp" where
  "roll_cpp gen e =
     (let e1 = e\<lparr>dice_cpp := bankKept (dice_cpp e),
                 turn_score := turn_score e + current_keep_score e,
                 current_keep_score := 0\<rparr>;
          any_to_roll = list_ex (\<lambda>d. die_state d = Rolled) (dice_cpp e1);
          e2 = (if \<not> any_to_roll then e1\<lparr>dice_cpp := resetAll (dice_cpp e1)\<rparr> else e1);
          e3 = e2\<lparr>dice_cpp := assignValues gen 0 (dice_cpp e2)\<rparr>;
          rolled_values = map die_value (rolledDice (dice_cpp e3))
      in if \<not> has_scoring_potential rolled_values
         then e3\<lparr>status_cpp := Farkle, turn_score := 0, current_keep_score := 0\<rparr>
         else e3\<lparr>status_cpp := Rolling\<rparr>)"

text \<open>The constructor: six dice with value 1, then one \<^verbatim>\<open>roll()\<close>.\<close>

definition newFarkleEngine_cpp :: "(nat \<Rightarrow> int) \<Rightarrow> nat \<Rightarrow> FarkleEngine_cpp" where
  "newFarkleEngine_cpp gen num_players =
     roll_cpp gen
       \<lparr>player_scores = replicate num_players 0,
        current_player_index = 0,
        dice_cpp = map (\<lambda>i. \<lparr>die_id = int i, die_value = 1, die_state = Rolled\<rparr>) [0..<6],
        turn_score = 0,
        current_keep_score = 0,
        status_cpp = Rolling,
        message_cpp = []\<rparr>"

text \<open>
  \<^verbatim>\<open>recalc_keep_score()\<close> and \<^verbatim>\<open>toggle_keep(die_id)\<close>. The three early returns end in \<open>e\<close>;
  every other path, also the one that changes no die, ends in \<^verbatim>\<open>recalc_keep_score()\<close>.
\<close>

definition recalc_keep_score :: "FarkleEngine_cpp \<Rightarrow> FarkleEngine_cpp" where
  "recalc_keep_score e =
     e\<lparr>current_keep_score := evaluate_scoring (map die_value (keptDice (dice_cpp e)))\<rparr>"

definition toggle_keep :: "int \<Rightarrow> FarkleEngine_cpp \<Rightarrow> FarkleEngine_cpp" where
  "toggle_keep die_id' e =
     (if status_cpp e \<noteq> Rolling then e
      else case findDie die_id' (dice_cpp e) of
        None \<Rightarrow> e
      | Some it \<Rightarrow>
          if die_state it = Banked then e
          else if die_state it = Kept
          then recalc_keep_score (e\<lparr>dice_cpp := unkeep (die_value it) (dice_cpp e)\<rparr>)
          else
            let val = die_value it;
                count_rolled =
                  length (filter (\<lambda>d. die_value d = val \<and> die_state d = Rolled) (dice_cpp e));
                count_kept =
                  length (filter (\<lambda>d. die_value d = val \<and> die_state d = Kept) (dice_cpp e))
            in if count_rolled + count_kept \<ge> 3
               then (if count_kept < 3
                     then recalc_keep_score
                            (e\<lparr>dice_cpp := promote (3 - count_kept) val (dice_cpp e)\<rparr>)
                     else recalc_keep_score (e\<lparr>dice_cpp := keepDie die_id' (dice_cpp e)\<rparr>))
               else if val = 1 \<or> val = 5
               then recalc_keep_score (e\<lparr>dice_cpp := keepDie die_id' (dice_cpp e)\<rparr>)
               else recalc_keep_score e)"

text \<open>
  \<^verbatim>\<open>pass_turn\<close>: the remainder by \<^verbatim>\<open>player_scores.size()\<close> is undefined for an empty
  vector.
\<close>

definition pass_turn :: "(nat \<Rightarrow> int) \<Rightarrow> FarkleEngine_cpp \<Rightarrow> error + FarkleEngine_cpp" where
  "pass_turn gen e =
     (if player_scores e = [] then Inl UndefinedBehaviour
      else Inr (roll_cpp gen
             (e\<lparr>turn_score := 0,
                current_keep_score := 0,
                current_player_index := (current_player_index e + 1) mod length (player_scores e),
                dice_cpp := resetAll (dice_cpp e),
                status_cpp := Rolling\<rparr>)))"

text \<open>\<^verbatim>\<open>bank\<close>: \<^verbatim>\<open>player_scores[current_player_index]\<close> out of range is undefined.\<close>

definition bank_cpp :: "(nat \<Rightarrow> int) \<Rightarrow> FarkleEngine_cpp \<Rightarrow> error + FarkleEngine_cpp" where
  "bank_cpp gen e =
     (if current_keep_score e = 0 \<and> turn_score e = 0 then Inr e
      else if current_player_index e \<ge> length (player_scores e) then Inl UndefinedBehaviour
      else
        let i = current_player_index e;
            t = turn_score e + current_keep_score e;
            e1 = e\<lparr>turn_score := t,
                   current_keep_score := 0,
                   dice_cpp := bankKept (dice_cpp e),
                   player_scores := (player_scores e)[i := player_scores e ! i + t]\<rparr>
        in if player_scores e1 ! i \<ge> 10000
           then Inr (e1\<lparr>status_cpp := Win\<rparr>)
           else pass_turn gen e1)"

text \<open>
  The same for the C++ engine, with \<^verbatim>\<open>recalc_keep_score\<close>, which is public there.
\<close>

inductive reachable_cpp :: "FarkleEngine_cpp \<Rightarrow> bool" where
  c_new: "reachable_cpp (newFarkleEngine_cpp gen num_players)"
| c_roll: "reachable_cpp e \<Longrightarrow> reachable_cpp (roll_cpp gen e)"
| c_toggle_keep: "reachable_cpp e \<Longrightarrow> reachable_cpp (toggle_keep dieId e)"
| c_bank: "reachable_cpp e \<Longrightarrow> bank_cpp gen e = Inr e' \<Longrightarrow> reachable_cpp e'"
| c_pass_turn: "reachable_cpp e \<Longrightarrow> pass_turn gen e = Inr e' \<Longrightarrow> reachable_cpp e'"
| c_recalc_keep_score: "reachable_cpp e \<Longrightarrow> reachable_cpp (recalc_keep_score e)"

section \<open>Notions used to state the properties\<close>

abbreviation D :: "int \<Rightarrow> int \<Rightarrow> DieState \<Rightarrow> Die" where
  "D i v s \<equiv> \<lparr>die_id = i, die_value = v, die_state = s\<rparr>"

text \<open>
  What the TypeScript loop computes for one face: every complete group of three scores the
  base, the dice left over score as singles.
\<close>

definition group_face_score :: "int \<Rightarrow> nat \<Rightarrow> int" where
  "group_face_score v c =
     int (c div 3) * base_score v
       + (if v = 1 then 100 * int (c mod 3) else if v = 5 then 50 * int (c mod 3) else 0)"

text \<open>
  The rule of the specification for step 4 of \<^verbatim>\<open>roll\<close>, in its words: potential exists iff
  the values contain at least one 1, at least one 5, or a value occurring at least three
  times.
\<close>

definition scoring_potential :: "int list \<Rightarrow> bool" where
  "scoring_potential vs = (1 \<in> set vs \<or> 5 \<in> set vs \<or> (\<exists>v\<in>set vs. count_list vs v \<ge> 3))"

text \<open>
  Steps 1 and 2 of \<^verbatim>\<open>roll\<close> on the pool, the same in both engines: Kept dice become
  Banked; if then no die is Rolled, all dice go back to Rolled.
\<close>

definition preRoll :: "Die list \<Rightarrow> Die list" where
  "preRoll ds = (let ds1 = bankKept ds in if rolledDice ds1 = [] then resetAll ds1 else ds1)"

text \<open>
  \<^verbatim>\<open>passTurn\<close> as the specification words it, on the TypeScript state: reset the two
  accumulators, advance the player, reset all dice to Rolled, status Rolling, then one
  \<^verbatim>\<open>roll()\<close>.
\<close>

definition passTurn_spec :: "(nat \<Rightarrow> real) \<Rightarrow> FarkleEngine \<Rightarrow> FarkleEngine" where
  "passTurn_spec rnd e =
     roll rnd (e\<lparr>turnScore := 0,
                 currentKeepScore := 0,
                 currentPlayerIndex := (currentPlayerIndex e + 1) mod length (players e),
                 dice := resetAll (dice e),
                 status := Rolling\<rparr>)"

text \<open>The number of dice of the pool in a given state.\<close>

definition countState :: "DieState \<Rightarrow> Die list \<Rightarrow> nat" where
  "countState s ds = length (filter (\<lambda>d. die_state d = s) ds)"

text \<open>The number of dice of the pool with a given value in a given state.\<close>

definition countOf :: "int \<Rightarrow> DieState \<Rightarrow> Die list \<Rightarrow> nat" where
  "countOf v s ds = length (filter (\<lambda>d. die_value d = v \<and> die_state d = s) ds)"

text \<open>
  A die of the new pool is the die of the old pool at the same place, or that die promoted
  from Rolled to Kept, its value being \<open>v\<close>.
\<close>

definition promoted :: "int \<Rightarrow> Die list \<Rightarrow> Die list \<Rightarrow> bool" where
  "promoted v ds' ds =
     list_all2 (\<lambda>d' d. d' = d \<or> (die_value d = v \<and> die_state d = Rolled \<and> d' = setState Kept d))
       ds' ds"

text \<open>
  No value is kept in part: for every value, none of its dice is Kept, or at least three
  are, or fewer than three are Rolled or Kept.
\<close>

definition keptInGroups :: "Die list \<Rightarrow> bool" where
  "keptInGroups ds =
     (\<forall>v. countOf v Kept ds = 0 \<or> countOf v Kept ds \<ge> 3
          \<or> countOf v Rolled ds + countOf v Kept ds < 3)"

section \<open>Sample inputs\<close>

text \<open>Sample inputs: a random source drawing 2, 2, 3, 4, 4, ... and a pool in mid-turn.\<close>

definition rnd0 :: "nat \<Rightarrow> real" where
  "rnd0 k = (if k < 2 then 1 / 4 else if k = 2 then 5 / 12 else 7 / 12)"

definition gen0 :: "nat \<Rightarrow> int" where
  "gen0 k = (if k < 2 then 2 else if k = 2 then 3 else 4)"

definition pool0 :: "Die list" where
  "pool0 = [D 0 1 Kept, D 1 5 Banked, D 2 3 Rolled, D 3 3 Rolled, D 4 4 Rolled, D 5 6 Rolled]"

definition ts0 :: FarkleEngine where
  "ts0 = \<lparr>players = [\<lparr>player_id = 0, player_type = human, name = ''Player'', score = 0\<rparr>,
                    \<lparr>player_id = 1, player_type = computer, name = ''Computer'', score = 0\<rparr>],
          currentPlayerIndex = 0, dice = pool0, turnScore = 50, currentKeepScore = 100,
          status = Rolling, message = ''Select dice to keep.''\<rparr>"

definition cpp0 :: FarkleEngine_cpp where
  "cpp0 = \<lparr>player_scores = [0, 0], current_player_index = 0, dice_cpp = pool0,
           turn_score = 50, current_keep_score = 100, status_cpp = Rolling, message_cpp = []\<rparr>"

text \<open>A random source drawing 2, 2, 3, 3, 4, 4, ...\<close>

definition rnd1 :: "nat \<Rightarrow> real" where
  "rnd1 k = (if k < 2 then 1 / 4 else if k < 4 then 5 / 12 else 7 / 12)"

definition gen1 :: "nat \<Rightarrow> int" where
  "gen1 k = (if k < 2 then 2 else if k < 4 then 3 else 4)"

text \<open>Sample inputs: an engine whose current player is one bank away from winning.\<close>

definition ts1 :: FarkleEngine where
  "ts1 = \<lparr>players = [\<lparr>player_id = 0, player_type = human, name = ''Player'', score = 9900\<rparr>,
                    \<lparr>player_id = 1, player_type = computer, name = ''Computer'', score = 0\<rparr>],
          currentPlayerIndex = 0, dice = pool0, turnScore = 50, currentKeepScore = 100,
          status = Rolling, message = ''Select dice to keep.''\<rparr>"

definition cpp1 :: FarkleEngine_cpp where
  "cpp1 = \<lparr>player_scores = [9900, 0], current_player_index = 0, dice_cpp = pool0,
           turn_score = 50, current_keep_score = 100, status_cpp = Rolling, message_cpp = []\<rparr>"

text \<open>The sample engines after the winning \<^verbatim>\<open>bank()\<close>.\<close>

definition ts1_won :: FarkleEngine where
  "ts1_won = \<lparr>players = [\<lparr>player_id = 0, player_type = human, name = ''Player'', score = 10050\<rparr>,
                    \<lparr>player_id = 1, player_type = computer, name = ''Computer'', score = 0\<rparr>],
          currentPlayerIndex = 0,
          dice = [D 0 1 Banked, D 1 5 Banked, D 2 3 Rolled, D 3 3 Rolled, D 4 4 Rolled,
                  D 5 6 Rolled],
          turnScore = 150, currentKeepScore = 0,
          status = Win, message = ''Player Wins!''\<rparr>"

definition cpp1_won :: FarkleEngine_cpp where
  "cpp1_won = \<lparr>player_scores = [10050, 0], current_player_index = 0,
           dice_cpp = [D 0 1 Banked, D 1 5 Banked, D 2 3 Rolled, D 3 3 Rolled, D 4 4 Rolled,
                       D 5 6 Rolled],
           turn_score = 150, current_keep_score = 0, status_cpp = Win, message_cpp = []\<rparr>"

text \<open>A random source drawing 1, 1, 1, 2, 3, 4, 4, ...\<close>

definition rnd2 :: "nat \<Rightarrow> real" where
  "rnd2 k = (if k < 3 then 1 / 8 else if k = 3 then 1 / 4 else if k = 4 then 5 / 12 else 7 / 12)"

definition gen2 :: "nat \<Rightarrow> int" where
  "gen2 k = (if k < 3 then 1 else if k = 3 then 2 else if k = 4 then 3 else 4)"

text \<open>
  Sample reachable states: a new two-player game whose opening values are 1, 1, 1, 2, 3, 4.
\<close>

definition ts2 :: FarkleEngine where
  "ts2 = newFarkleEngine rnd2 [''Player'', ''Computer'']"

definition cpp2 :: FarkleEngine_cpp where
  "cpp2 = newFarkleEngine_cpp gen2 2"

text \<open>
  Sample inputs: a random source drawing 2, 2, 2, 2, 3, 4, 4, ..., the new game that opens
  with these values, and a pool with one Kept and two Rolled ones.
\<close>

definition rnd3 :: "nat \<Rightarrow> real" where
  "rnd3 k = (if k < 4 then 1 / 4 else if k = 4 then 5 / 12 else 7 / 12)"

definition ts3 :: FarkleEngine where
  "ts3 = newFarkleEngine rnd3 [''Player'', ''Computer'']"

definition ts4 :: FarkleEngine where
  "ts4 = \<lparr>players = [\<lparr>player_id = 0, player_type = human, name = ''Player'', score = 0\<rparr>,
                    \<lparr>player_id = 1, player_type = computer, name = ''Computer'', score = 0\<rparr>],
          currentPlayerIndex = 0,
          dice = [D 0 1 Kept, D 1 1 Rolled, D 2 1 Rolled, D 3 2 Rolled, D 4 3 Rolled,
                  D 5 4 Rolled],
          turnScore = 0, currentKeepScore = 100,
          status = Rolling, message = ''Select dice to keep.''\<rparr>"

section \<open>Counting lemmas\<close>

lemma lookup0_incr: "lookup0 (incr v counts) w = (if w = v then lookup0 counts v + 1 else lookup0 counts w)"
  by (simp add: lookup0_def incr_def update_conv)

lemma lookup0_fold_incr: "lookup0 (fold incr vs counts) w = lookup0 counts w + count_list vs w"
  by (induction vs arbitrary: counts) (simp_all add: lookup0_incr)

lemma lookup0_Nil: "lookup0 [] w = 0"
  by (simp add: lookup0_def)

lemma lookup0_count_values: "lookup0 (count_values vs) w = count_list vs w"
  unfolding count_values_def by (simp only: lookup0_fold_incr lookup0_Nil add_0)

lemma fold_incr_map: "fold (\<lambda>d counts. incr (f d) counts) ds counts = fold incr (map f ds) counts"
  by (induction ds arbitrary: counts) simp_all

lemma getCounts_count_values: "getCounts ds = count_values (map die_value ds)"
  unfolding getCounts_def count_values_def by (rule fold_incr_map)


section \<open>Scoring evaluator: lemmas\<close>

lemma tripleLoop_eq: "tripleLoop i c s = (s + int (c div 3) * base_score i, c mod 3)"
proof (induction i c s rule: tripleLoop.induct)
  case (1 i count score)
  show ?case
  proof (cases "count \<ge> 3")
    case True
    then have d: "count div 3 = Suc ((count - 3) div 3)" and m: "count mod 3 = (count - 3) mod 3"
      by (simp_all add: le_div_geq le_mod_geq)
    from True 1 show ?thesis
      by (subst tripleLoop.simps) (simp add: d m base_score_def algebra_simps)
  next
    case False
    then show ?thesis by (subst tripleLoop.simps) simp
  qed
qed

lemma scoreFace_eq: "scoreFace counts i s = s + group_face_score i (lookup0 counts i)"
  by (simp add: scoreFace_def tripleLoop_eq group_face_score_def)

lemma score_face_eq: "score_face counts i s = s + face_score i (lookup0 counts i)"
  by (simp add: score_face_def face_score_def base_score_def Let_def)

lemma evaluate_scoring_doubling: "evaluate_scoring vs = doubling_score vs"
  by (simp add: evaluate_scoring_def doubling_score_def score_face_eq lookup0_count_values)

lemma evaluateScoring_groups:
  "evaluateScoring ds =
     (\<Sum>v\<leftarrow>[1, 2, 3, 4, 5, 6]. group_face_score v (count_list (map die_value ds) v))"
  by (simp add: evaluateScoring_def scoreFace_eq getCounts_count_values lookup0_count_values)

lemma group_face_score_le3: "c \<le> 3 \<Longrightarrow> group_face_score v c = face_score v c"
  by (cases "c = 3") (simp_all add: group_face_score_def face_score_def)

lemma evaluateScoring_doubling:
  assumes "\<forall>v. count_list (map die_value ds) v \<le> 3"
  shows "evaluateScoring ds = doubling_score (map die_value ds)"
  using assms by (simp add: evaluateScoring_groups doubling_score_def group_face_score_le3)

lemma evaluateScoring_Nil: "evaluateScoring [] = 0"
  by (simp add: evaluateScoring_groups group_face_score_def)

lemma evaluate_scoring_Nil: "evaluate_scoring [] = 0"
  by (simp add: evaluate_scoring_doubling doubling_score_def face_score_def)

section \<open>C1: the scoring evaluator\<close>

text \<open>
  C1, as stated: \<^verbatim>\<open>evaluateScoring\<close> returns the doubling score on every multiset of face
  values, 2000 on four ones. The TypeScript \<^verbatim>\<open>evaluateScoring\<close> does not: its loop scores
  every group of three at the base, so four ones score 1000 + 100.
\<close>

theorem C1_counterexample:
  "evaluateScoring [D 0 1 Kept, D 1 1 Kept, D 2 1 Kept, D 3 1 Kept] = 1100
   \<and> doubling_score (map die_value [D 0 1 Kept, D 1 1 Kept, D 2 1 Kept, D 3 1 Kept]) = 2000"
  by (simp add: evaluateScoring_groups group_face_score_def doubling_score_def face_score_def
      base_score_def)

text \<open>
  C1, amended: the C++ \<^verbatim>\<open>evaluate_scoring\<close> returns the doubling score of every multiset of
  at most six face values from 1 to 6 (the empty one scores 0, four ones score 2000). The
  TypeScript \<^verbatim>\<open>evaluateScoring\<close> returns the doubling score whenever no face value occurs
  more than three times; in general it scores, for each face, every complete group of
  three at the base and the dice left over as singles.
\<close>

theorem C1_scoring:
  "(length vs \<le> 6 \<and> set vs \<subseteq> {1..6} \<longrightarrow> evaluate_scoring vs = doubling_score vs)
   \<and> evaluate_scoring [] = 0
   \<and> evaluate_scoring [1, 1, 1, 1] = 2000
   \<and> ((\<forall>v. count_list (map die_value ds) v \<le> 3)
        \<longrightarrow> evaluateScoring ds = doubling_score (map die_value ds))
   \<and> evaluateScoring ds =
        (\<Sum>v\<leftarrow>[1, 2, 3, 4, 5, 6]. group_face_score v (count_list (map die_value ds) v))"
proof (intro conjI impI)
  show "evaluate_scoring vs = doubling_score vs"
    by (rule evaluate_scoring_doubling)
  show "evaluate_scoring [] = 0"
    by (rule evaluate_scoring_Nil)
  show "evaluate_scoring [1, 1, 1, 1] = 2000"
    by (simp add: evaluate_scoring_doubling doubling_score_def face_score_def base_score_def)
  show "evaluateScoring ds = doubling_score (map die_value ds)"
    if "\<forall>v. count_list (map die_value ds) v \<le> 3"
    using that by (rule evaluateScoring_doubling)
  show "evaluateScoring ds =
        (\<Sum>v\<leftarrow>[1, 2, 3, 4, 5, 6]. group_face_score v (count_list (map die_value ds) v))"
    by (rule evaluateScoring_groups)
qed

theorem C1_scoring_witness:
  "evaluate_scoring [1, 1, 1, 1, 5, 2] = 2050
   \<and> evaluateScoring [D 0 5 Kept, D 1 1 Kept, D 2 5 Kept, D 3 5 Kept, D 4 2 Rolled] = 600"
proof -
  have l: "length [1, 1, 1, 1, 5, 2 :: int] \<le> 6 \<and> set [1, 1, 1, 1, 5, 2 :: int] \<subseteq> {1..6}"
    by simp
  have c: "\<forall>v. count_list (map die_value
      [D 0 5 Kept, D 1 1 Kept, D 2 5 Kept, D 3 5 Kept, D 4 2 Rolled]) v \<le> 3"
    by simp
  show ?thesis
    using l c C1_scoring [of "[1, 1, 1, 1, 5, 2]"
        "[D 0 5 Kept, D 1 1 Kept, D 2 5 Kept, D 3 5 Kept, D 4 2 Rolled]"]
    by (simp add: doubling_score_def face_score_def base_score_def)
qed

section \<open>Dice pool: lemmas\<close>

lemma setState_simps [simp]:
  "die_state (setState s d) = s" "die_id (setState s d) = die_id d"
  "die_value (setState s d) = die_value d"
  by (simp_all add: setState_def)

lemma length_bankKept [simp]: "length (bankKept ds) = length ds"
  by (simp add: bankKept_def)

lemma length_resetAll [simp]: "length (resetAll ds) = length ds"
  by (simp add: resetAll_def)

lemma length_assignValues [simp]: "length (assignValues draw k ds) = length ds"
  by (induction ds arbitrary: k) simp_all

lemma length_unkeep [simp]: "length (unkeep v ds) = length ds"
  by (simp add: unkeep_def)

lemma length_promote [simp]: "length (promote n v ds) = length ds"
  by (induction ds arbitrary: n) simp_all

lemma length_keepDie [simp]: "length (keepDie i ds) = length ds"
  by (induction ds) simp_all

lemma ids_bankKept [simp]: "map die_id (bankKept ds) = map die_id ds"
  by (simp add: bankKept_def)

lemma ids_resetAll [simp]: "map die_id (resetAll ds) = map die_id ds"
  by (simp add: resetAll_def)

lemma ids_assignValues [simp]: "map die_id (assignValues draw k ds) = map die_id ds"
  by (induction ds arbitrary: k) simp_all

lemma ids_unkeep [simp]: "map die_id (unkeep v ds) = map die_id ds"
  by (simp add: unkeep_def)

lemma ids_promote [simp]: "map die_id (promote n v ds) = map die_id ds"
  by (induction ds arbitrary: n) simp_all

lemma ids_keepDie [simp]: "map die_id (keepDie i ds) = map die_id ds"
  by (induction ds) simp_all

lemma states_assignValues [simp]: "map die_state (assignValues draw k ds) = map die_state ds"
  by (induction ds arbitrary: k) simp_all

lemma keptDice_bankKept [simp]: "keptDice (bankKept ds) = []"
  by (induction ds) (simp_all add: keptDice_def bankKept_def)

lemma keptDice_resetAll [simp]: "keptDice (resetAll ds) = []"
  by (induction ds) (simp_all add: keptDice_def resetAll_def)

lemma keptDice_assignValues_Nil: "keptDice ds = [] \<Longrightarrow> keptDice (assignValues draw k ds) = []"
  by (induction ds arbitrary: k) (simp_all add: keptDice_def split: if_splits)

lemma values_rolled_assignValues:
  "map die_value (rolledDice (assignValues draw k ds)) = map draw [k..<k + length (rolledDice ds)]"
proof (induction ds arbitrary: k)
  case Nil
  show ?case by (simp add: rolledDice_def)
next
  case (Cons d ds)
  show ?case
  proof (cases "die_state d = Rolled")
    case True
    have "[k..<k + Suc (length (rolledDice ds))] = k # [Suc k..<Suc k + length (rolledDice ds)]"
      by (simp add: upt_rec)
    with True Cons [of "Suc k"] show ?thesis
      by (simp add: rolledDice_def)
  next
    case False
    with Cons [of k] show ?thesis by (simp add: rolledDice_def)
  qed
qed

lemma length_rolled_assignValues [simp]:
  "length (rolledDice (assignValues draw k ds)) = length (rolledDice ds)"
  using arg_cong [OF values_rolled_assignValues [of draw k ds], of length] by simp

section \<open>Scoring potential: lemmas\<close>

lemma distinct_incr: "distinct (map fst al) \<Longrightarrow> distinct (map fst (incr v al))"
  by (simp add: incr_def distinct_update)

lemma distinct_fold_incr: "distinct (map fst al) \<Longrightarrow> distinct (map fst (fold incr vs al))"
  by (induction vs arbitrary: al) (simp_all add: distinct_incr)

lemma keys_incr: "fst ` set (incr v al) = insert v (fst ` set al)"
  by (simp add: incr_def dom_update [simplified dom_map_of_conv_image_fst])

lemma keys_fold_incr: "fst ` set (fold incr vs al) = set vs \<union> fst ` set al"
  by (induction vs arbitrary: al) (auto simp: keys_incr)

lemma keys_count_values: "fst ` set (count_values vs) = set vs"
  by (simp add: count_values_def keys_fold_incr)

lemma distinct_count_values: "distinct (map fst (count_values vs))"
  by (simp add: count_values_def distinct_fold_incr)

lemma entry_count_values:
  "(v, c) \<in> set (count_values vs) \<longleftrightarrow> v \<in> set vs \<and> c = count_list vs v"
proof
  assume a: "(v, c) \<in> set (count_values vs)"
  then have "map_of (count_values vs) v = Some c"
    using distinct_count_values by simp
  then have "lookup0 (count_values vs) v = c" by (simp add: lookup0_def)
  moreover from a have "v \<in> fst ` set (count_values vs)" by force
  ultimately show "v \<in> set vs \<and> c = count_list vs v"
    by (simp add: lookup0_count_values keys_count_values)
next
  assume a: "v \<in> set vs \<and> c = count_list vs v"
  then have "v \<in> fst ` set (count_values vs)" by (simp add: keys_count_values)
  then obtain c' where c': "(v, c') \<in> set (count_values vs)" by auto
  then have "map_of (count_values vs) v = Some c'"
    using distinct_count_values by simp
  then have "lookup0 (count_values vs) v = c'" by (simp add: lookup0_def)
  with a c' show "(v, c) \<in> set (count_values vs)" by (simp add: lookup0_count_values)
qed

lemma count_list_pos: "count_list vs v > 0 \<longleftrightarrow> v \<in> set vs"
  by (induction vs) auto

lemma has_scoring_potential_iff: "has_scoring_potential vs = scoring_potential vs"
proof -
  have "list_ex (\<lambda>(val, count). count \<ge> 3) (count_values vs)
        \<longleftrightarrow> (\<exists>v\<in>set vs. count_list vs v \<ge> 3)"
    by (auto simp: list_ex_iff entry_count_values)
  then show ?thesis
    by (auto simp: has_scoring_potential_def scoring_potential_def Let_def lookup0_count_values
        count_list_pos)
qed

lemma hasScore_iff: "hasScore (getCounts ds) = scoring_potential (map die_value ds)"
proof -
  have "list_ex (\<lambda>c. c \<ge> 3) (map snd (count_values vs))
        \<longleftrightarrow> (\<exists>v\<in>set vs. count_list vs v \<ge> 3)" for vs
  proof
    assume "list_ex (\<lambda>c. c \<ge> 3) (map snd (count_values vs))"
    then obtain p where p: "p \<in> set (count_values vs)" "snd p \<ge> 3"
      by (auto simp: list_ex_iff)
    then have "(fst p, snd p) \<in> set (count_values vs)" by simp
    then have "fst p \<in> set vs \<and> snd p = count_list vs (fst p)"
      by (simp only: entry_count_values)
    with p show "\<exists>v\<in>set vs. count_list vs v \<ge> 3" by auto
  next
    assume "\<exists>v\<in>set vs. count_list vs v \<ge> 3"
    then obtain v where v: "v \<in> set vs" "count_list vs v \<ge> 3" by blast
    then have "(v, count_list vs v) \<in> set (count_values vs)"
      by (simp add: entry_count_values)
    with v have "\<exists>p\<in>set (count_values vs). snd p \<ge> 3"
      by (intro bexI [of _ "(v, count_list vs v)"]) simp_all
    then show "list_ex (\<lambda>c. c \<ge> 3) (map snd (count_values vs))"
      by (simp add: list_ex_iff)
  qed
  then show ?thesis
    by (auto simp: hasScore_def scoring_potential_def getCounts_count_values lookup0_count_values
        count_list_pos simp del: set_map)
qed

section \<open>C4: roll and the Farkle check\<close>

lemma bankKept_id: "keptDice ds = [] \<Longrightarrow> bankKept ds = ds"
  by (induction ds) (simp_all add: keptDice_def bankKept_def split: if_splits)

lemma list_ex_rolled: "list_ex (\<lambda>d. die_state d = Rolled) ds \<longleftrightarrow> rolledDice ds \<noteq> []"
  by (simp add: list_ex_iff rolledDice_def filter_empty_conv)

lemma roll_eq:
  "roll rnd e =
     (let ds = assignValues (\<lambda>k. rollDie (rnd k)) 0 (preRoll (dice e));
          p = scoring_potential (map die_value (rolledDice ds));
          kept = (keptDice (dice e) \<noteq> []);
          hot = (rolledDice (bankKept (dice e)) = [])
      in e\<lparr>dice := ds,
           turnScore := (if \<not> p then 0 else if kept then turnScore e + currentKeepScore e
                         else turnScore e),
           currentKeepScore := (if \<not> p then 0 else if kept then 0 else currentKeepScore e),
           status := (if p then Rolling else Farkle),
           message := (if \<not> p then ''Farkle! No points.'' else ''Select dice to keep.'')\<rparr>)"
  by (cases "keptDice (dice e) = []"; cases "rolledDice (bankKept (dice e)) = []";
      cases "scoring_potential (map die_value (rolledDice
         (assignValues (\<lambda>k. rollDie (rnd k)) 0 (preRoll (dice e)))))")
    (simp_all add: roll_def Let_def preRoll_def bankKept_id hasScore_iff)

lemma roll_cpp_eq:
  "roll_cpp gen e =
     (let ds = assignValues gen 0 (preRoll (dice_cpp e));
          p = scoring_potential (map die_value (rolledDice ds))
      in e\<lparr>dice_cpp := ds,
           turn_score := (if \<not> p then 0 else turn_score e + current_keep_score e),
           current_keep_score := 0,
           status_cpp := (if p then Rolling else Farkle)\<rparr>)"
  by (cases "rolledDice (bankKept (dice_cpp e)) = []";
      cases "scoring_potential (map die_value (rolledDice
         (assignValues gen 0 (preRoll (dice_cpp e)))))")
    (simp_all add: roll_cpp_def Let_def preRoll_def list_ex_rolled has_scoring_potential_iff)

lemma dice_roll: "dice (roll rnd e) = assignValues (\<lambda>k. rollDie (rnd k)) 0 (preRoll (dice e))"
  by (simp add: roll_eq Let_def)

lemma status_roll:
  "status (roll rnd e) =
     (if scoring_potential (map die_value (rolledDice (dice (roll rnd e)))) then Rolling else Farkle)"
  by (simp add: roll_eq Let_def)

lemma farkle_roll:
  "\<not> scoring_potential (map die_value (rolledDice (dice (roll rnd e))))
   \<Longrightarrow> turnScore (roll rnd e) = 0 \<and> currentKeepScore (roll rnd e) = 0"
  by (simp add: roll_eq Let_def)

lemma dice_roll_cpp: "dice_cpp (roll_cpp gen e) = assignValues gen 0 (preRoll (dice_cpp e))"
  by (simp add: roll_cpp_eq Let_def)

lemma status_roll_cpp:
  "status_cpp (roll_cpp gen e) =
     (if scoring_potential (map die_value (rolledDice (dice_cpp (roll_cpp gen e)))) then Rolling
      else Farkle)"
  by (simp add: roll_cpp_eq Let_def)

lemma farkle_roll_cpp:
  "\<not> scoring_potential (map die_value (rolledDice (dice_cpp (roll_cpp gen e))))
   \<Longrightarrow> turn_score (roll_cpp gen e) = 0 \<and> current_keep_score (roll_cpp gen e) = 0"
  by (simp add: roll_cpp_eq Let_def)

lemma values_rolled_from_0:
  "map die_value (rolledDice (assignValues draw 0 ds))
     = map draw [0..<length (map die_value (rolledDice (assignValues draw 0 ds)))]"
  using values_rolled_assignValues [of draw 0 ds] by simp

text \<open>
  C4: after \<^verbatim>\<open>roll()\<close> the dice in state Rolled are the newly rolled ones, holding the draws
  in pool order. If their values contain no 1, no 5 and no value three times, the status is
  Farkle and both \<^verbatim>\<open>turnScore\<close> and \<^verbatim>\<open>currentKeepScore\<close> are 0, whatever the turn had
  accumulated; otherwise the status is Rolling. Both engines.
\<close>

theorem C4_roll_farkle:
  "(let e' = roll rnd e; vs = map die_value (rolledDice (dice e')) in
      vs = map (\<lambda>k. rollDie (rnd k)) [0..<length vs]
      \<and> (if scoring_potential vs then status e' = Rolling
         else status e' = Farkle \<and> turnScore e' = 0 \<and> currentKeepScore e' = 0))
   \<and> (let c' = roll_cpp gen c; vs = map die_value (rolledDice (dice_cpp c')) in
      vs = map gen [0..<length vs]
      \<and> (if scoring_potential vs then status_cpp c' = Rolling
         else status_cpp c' = Farkle \<and> turn_score c' = 0 \<and> current_keep_score c' = 0))"
proof -
  let ?vs = "map die_value (rolledDice (dice (roll rnd e)))"
  let ?ws = "map die_value (rolledDice (dice_cpp (roll_cpp gen c)))"
  have 1: "?vs = map (\<lambda>k. rollDie (rnd k)) [0..<length ?vs]"
    unfolding dice_roll by (rule values_rolled_from_0)
  have 2: "if scoring_potential ?vs then status (roll rnd e) = Rolling
           else status (roll rnd e) = Farkle \<and> turnScore (roll rnd e) = 0
                \<and> currentKeepScore (roll rnd e) = 0"
    using status_roll [of rnd e] farkle_roll [of rnd e]
    by (cases "scoring_potential ?vs") simp_all
  have 3: "?ws = map gen [0..<length ?ws]"
    unfolding dice_roll_cpp by (rule values_rolled_from_0)
  have 4: "if scoring_potential ?ws then status_cpp (roll_cpp gen c) = Rolling
           else status_cpp (roll_cpp gen c) = Farkle \<and> turn_score (roll_cpp gen c) = 0
                \<and> current_keep_score (roll_cpp gen c) = 0"
    using status_roll_cpp [of gen c] farkle_roll_cpp [of gen c]
    by (cases "scoring_potential ?ws") simp_all
  show ?thesis
    unfolding Let_def by (intro conjI) (rule 1, rule 2, rule 3, rule 4)
qed

lemma rollDie_rnd0: "rollDie (rnd0 0) = 2" "rollDie (rnd0 (Suc 0)) = 2" "rollDie (rnd0 (Suc (Suc 0))) = 3"
  "rollDie (rnd0 (Suc (Suc (Suc 0)))) = 4"
  by (simp_all add: rollDie_def rnd0_def)

lemma dice_roll_ts0:
  "dice (roll rnd0 ts0) = [D 0 1 Banked, D 1 5 Banked, D 2 2 Rolled, D 3 2 Rolled, D 4 3 Rolled, D 5 4 Rolled]"
  by (simp add: dice_roll preRoll_def ts0_def pool0_def bankKept_def rolledDice_def setState_def
      rollDie_rnd0)

lemma dice_roll_cpp0:
  "dice_cpp (roll_cpp gen0 cpp0) = [D 0 1 Banked, D 1 5 Banked, D 2 2 Rolled, D 3 2 Rolled, D 4 3 Rolled, D 5 4 Rolled]"
  by (simp add: dice_roll_cpp preRoll_def cpp0_def pool0_def bankKept_def rolledDice_def setState_def
      gen0_def)

theorem C4_roll_farkle_witness:
  "status (roll rnd0 ts0) = Farkle \<and> turnScore (roll rnd0 ts0) = 0
   \<and> currentKeepScore (roll rnd0 ts0) = 0
   \<and> status_cpp (roll_cpp gen0 cpp0) = Farkle \<and> turn_score (roll_cpp gen0 cpp0) = 0
   \<and> current_keep_score (roll_cpp gen0 cpp0) = 0"
proof -
  have vs: "map die_value (rolledDice (dice (roll rnd0 ts0))) = [2, 2, 3, 4]"
    by (simp add: dice_roll_ts0 rolledDice_def)
  have ws: "map die_value (rolledDice (dice_cpp (roll_cpp gen0 cpp0))) = [2, 2, 3, 4]"
    by (simp add: dice_roll_cpp0 rolledDice_def)
  have np: "\<not> scoring_potential [2, 2, 3, 4]"
    by (simp add: scoring_potential_def)
  show ?thesis
    using C4_roll_farkle [of rnd0 ts0 gen0 cpp0] np
    unfolding Let_def vs ws by simp
qed

section \<open>C6: the values of rolled dice\<close>

lemma rollDie_range: "0 \<le> r \<Longrightarrow> r < 1 \<Longrightarrow> 0 \<le> rollDie r \<and> rollDie r \<le> 6"
  unfolding rollDie_def by (simp add: ceiling_le_iff)

lemma rollDie_range_pos: "0 < r \<Longrightarrow> r < 1 \<Longrightarrow> 1 \<le> rollDie r \<and> rollDie r \<le> 6"
  unfolding rollDie_def by (simp add: ceiling_le_iff)

lemma assignValues_rolled_range:
  "\<forall>k. P (draw k) \<Longrightarrow> d \<in> set (rolledDice (assignValues draw k ds)) \<Longrightarrow> P (die_value d)"
proof -
  assume a: "\<forall>k. P (draw k)" and d: "d \<in> set (rolledDice (assignValues draw k ds))"
  from d have "die_value d \<in> set (map die_value (rolledDice (assignValues draw k ds)))"
    by simp
  then have "die_value d \<in> set (map draw [k..<k + length (rolledDice ds)])"
    by (simp only: values_rolled_assignValues)
  with a show ?thesis by auto
qed

lemma roll_cpp_value_range:
  assumes "admissible_cpp gen" and "d \<in> set (rolledDice (dice_cpp (roll_cpp gen e)))"
  shows "1 \<le> die_value d \<and> die_value d \<le> 6"
  using assms assignValues_rolled_range [of "\<lambda>v. 1 \<le> v \<and> v \<le> 6" gen d 0 "preRoll (dice_cpp e)"]
  by (simp add: admissible_cpp_def dice_roll_cpp)

lemma roll_value_range:
  assumes "admissible rnd" and "d \<in> set (rolledDice (dice (roll rnd e)))"
  shows "0 \<le> die_value d \<and> die_value d \<le> 6"
  using assms rollDie_range
    assignValues_rolled_range [of "\<lambda>v. 0 \<le> v \<and> v \<le> 6" "\<lambda>k. rollDie (rnd k)" d 0 "preRoll (dice e)"]
  by (simp add: admissible_def dice_roll)

text \<open>
  C6 on the TypeScript engine: \<^verbatim>\<open>Math.random()\<close> may return 0, and \<^verbatim>\<open>Math.ceil(0 * 6)\<close> is 0.
  With the random source that returns 0, every die rolled holds the value 0.
\<close>

theorem C6_roll_value_zero:
  "admissible (\<lambda>k. 0)
   \<and> dice (roll (\<lambda>k. 0) ts0)
       = [D 0 1 Banked, D 1 5 Banked, D 2 0 Rolled, D 3 0 Rolled, D 4 0 Rolled, D 5 0 Rolled]"
  by (simp add: admissible_def dice_roll preRoll_def ts0_def pool0_def bankKept_def rolledDice_def
      setState_def rollDie_def)

section \<open>C3: passTurn and construction\<close>

lemma upt6: "[0..<6] = [0, 1, 2, 3, 4, 5 :: nat]"
  by (simp add: upt_rec eval_nat_numeral)

lemma createDice_eq:
  "createDice rnd =
     [D 0 (rollDie (rnd 0)) Rolled, D 1 (rollDie (rnd 1)) Rolled, D 2 (rollDie (rnd 2)) Rolled,
      D 3 (rollDie (rnd 3)) Rolled, D 4 (rollDie (rnd 4)) Rolled, D 5 (rollDie (rnd 5)) Rolled]"
  by (simp add: createDice_def upt6)

lemma rolledDice_resetAll [simp]: "rolledDice (resetAll ds) = resetAll ds"
  by (induction ds) (simp_all add: rolledDice_def resetAll_def)

lemma bankKept_resetAll [simp]: "bankKept (resetAll ds) = resetAll ds"
  by (induction ds) (simp_all add: bankKept_def resetAll_def)

lemma resetAll_idem [simp]: "resetAll (resetAll ds) = resetAll ds"
  by (induction ds) (simp_all add: resetAll_def setState_def)

lemma resetAll_Nil [simp]: "resetAll [] = []"
  by (simp add: resetAll_def)

lemma preRoll_resetAll [simp]: "preRoll (resetAll ds) = resetAll ds"
  by (simp add: preRoll_def Let_def)

lemma states_resetAll [simp]: "map die_state (resetAll ds) = replicate (length ds) Rolled"
  by (induction ds) (simp_all add: resetAll_def)

lemma rolledDice_all:
  "map die_state ds = replicate (length ds) Rolled \<Longrightarrow> rolledDice ds = ds"
  by (induction ds) (simp_all add: rolledDice_def)

lemma values_assignValues_all:
  "map die_state ds = replicate (length ds) Rolled
   \<Longrightarrow> map die_value (assignValues draw k ds) = map draw [k..<k + length ds]"
proof -
  assume a: "map die_state ds = replicate (length ds) Rolled"
  then have "map die_state (assignValues draw k ds)
      = replicate (length (assignValues draw k ds)) Rolled"
    by simp
  then have "rolledDice (assignValues draw k ds) = assignValues draw k ds"
    by (rule rolledDice_all)
  with values_rolled_assignValues [of draw k ds] rolledDice_all [OF a] show ?thesis
    by simp
qed

lemma pass_turn_post:
  assumes "player_scores c \<noteq> []" and "pass_turn gen c = Inr c'"
  shows "turn_score c' = 0 \<and> current_keep_score c' = 0
     \<and> current_player_index c' = (current_player_index c + 1) mod length (player_scores c)
     \<and> player_scores c' = player_scores c
     \<and> map die_id (dice_cpp c') = map die_id (dice_cpp c)
     \<and> map die_state (dice_cpp c') = replicate (length (dice_cpp c)) Rolled
     \<and> map die_value (dice_cpp c') = map gen [0..<length (dice_cpp c)]
     \<and> status_cpp c' = (if scoring_potential (map gen [0..<length (dice_cpp c)]) then Rolling
                         else Farkle)"
proof -
  let ?s = "c\<lparr>turn_score := 0, current_keep_score := 0,
      current_player_index := (current_player_index c + 1) mod length (player_scores c),
      dice_cpp := resetAll (dice_cpp c), status_cpp := Rolling\<rparr>"
  from assms have c': "c' = roll_cpp gen ?s"
    by (simp add: pass_turn_def)
  have d: "dice_cpp c' = assignValues gen 0 (resetAll (dice_cpp c))"
    by (simp add: c' dice_roll_cpp)
  have v: "map die_value (dice_cpp c') = map gen [0..<length (dice_cpp c)]"
    using values_assignValues_all [of "resetAll (dice_cpp c)" gen 0] by (simp add: d)
  have r: "rolledDice (dice_cpp c') = dice_cpp c'"
    by (rule rolledDice_all) (simp add: d)
  have st: "status_cpp c' = (if scoring_potential (map gen [0..<length (dice_cpp c)]) then Rolling
                         else Farkle)"
    using status_roll_cpp [of gen ?s] by (simp only: c' [symmetric] r v)
  show ?thesis
    using v st by (simp add: d) (simp add: c' roll_cpp_eq Let_def)
qed

lemma new_cpp_post:
  "player_scores (newFarkleEngine_cpp gen n) = replicate n 0
   \<and> current_player_index (newFarkleEngine_cpp gen n) = 0
   \<and> turn_score (newFarkleEngine_cpp gen n) = 0
   \<and> current_keep_score (newFarkleEngine_cpp gen n) = 0
   \<and> dice_cpp (newFarkleEngine_cpp gen n)
       = [D 0 (gen 0) Rolled, D 1 (gen 1) Rolled, D 2 (gen 2) Rolled,
          D 3 (gen 3) Rolled, D 4 (gen 4) Rolled, D 5 (gen 5) Rolled]
   \<and> status_cpp (newFarkleEngine_cpp gen n)
       = (if scoring_potential [gen 0, gen 1, gen 2, gen 3, gen 4, gen 5] then Rolling
          else Farkle)"
proof -
  have p: "preRoll [D 0 1 Rolled, D 1 1 Rolled, D 2 1 Rolled, D 3 1 Rolled, D 4 1 Rolled,
      D 5 1 Rolled] = [D 0 1 Rolled, D 1 1 Rolled, D 2 1 Rolled, D 3 1 Rolled, D 4 1 Rolled,
      D 5 1 Rolled]"
    by (simp add: preRoll_def bankKept_def rolledDice_def)
  have n: "Suc (Suc 0) = 2" "Suc (Suc (Suc 0)) = 3" "Suc (Suc (Suc (Suc 0))) = 4"
    "Suc (Suc (Suc (Suc (Suc 0)))) = 5"
    by simp_all
  show ?thesis
    by (simp add: newFarkleEngine_cpp_def roll_cpp_eq Let_def upt6 p rolledDice_def n)
qed

text \<open>
  C3, as stated: \<^verbatim>\<open>passTurn()\<close> ends with one \<^verbatim>\<open>roll()\<close>, and so does construction. The
  TypeScript \<^verbatim>\<open>passTurn\<close> does not: it replaces the pool by \<^verbatim>\<open>createDice()\<close> and returns.
  With draws 2, 2, 3, 3, 4, 4 the new turn starts in status Rolling on a pool without
  scoring potential, where the specified \<^verbatim>\<open>passTurn\<close> ends in Farkle; the TypeScript
  constructor likewise.
\<close>

theorem C3_counterexample:
  "passTurn rnd1 ts0 =
     Inr (ts0\<lparr>turnScore := 0, currentKeepScore := 0, currentPlayerIndex := 1,
              message := ''Computer'' @ [CHR 0x27] @ ''s Turn'',
              dice := [D 0 2 Rolled, D 1 2 Rolled, D 2 3 Rolled, D 3 3 Rolled, D 4 4 Rolled,
                       D 5 4 Rolled],
              status := Rolling\<rparr>)
   \<and> \<not> scoring_potential [2, 2, 3, 3, 4, 4]
   \<and> status (passTurn_spec rnd1 ts0) = Farkle
   \<and> status (newFarkleEngine rnd1 [''Player'', ''Computer'']) = Rolling
   \<and> map die_value (dice (newFarkleEngine rnd1 [''Player'', ''Computer''])) = [2, 2, 3, 3, 4, 4]"
proof -
  have r: "rollDie (rnd1 0) = 2" "rollDie (rnd1 1) = 2" "rollDie (rnd1 2) = 3"
    "rollDie (rnd1 3) = 3" "rollDie (rnd1 4) = 4" "rollDie (rnd1 5) = 4"
    "rollDie (rnd1 (Suc 0)) = 2" "rollDie (rnd1 (Suc (Suc 0))) = 3"
    "rollDie (rnd1 (Suc (Suc (Suc 0)))) = 3" "rollDie (rnd1 (Suc (Suc (Suc (Suc 0))))) = 4"
    "rollDie (rnd1 (Suc (Suc (Suc (Suc (Suc 0)))))) = 4"
    by (simp_all add: rollDie_def rnd1_def)
  have np: "\<not> scoring_potential [2, 2, 3, 3, 4, 4]"
    by (simp add: scoring_potential_def)
  have 1: "passTurn rnd1 ts0 =
     Inr (ts0\<lparr>turnScore := 0, currentKeepScore := 0, currentPlayerIndex := 1,
              message := ''Computer'' @ [CHR 0x27] @ ''s Turn'',
              dice := [D 0 2 Rolled, D 1 2 Rolled, D 2 3 Rolled, D 3 3 Rolled, D 4 4 Rolled,
                       D 5 4 Rolled],
              status := Rolling\<rparr>)"
    by (simp add: passTurn_def ts0_def createDice_eq r)
  have d: "dice (passTurn_spec rnd1 ts0) =
      [D 0 2 Rolled, D 1 2 Rolled, D 2 3 Rolled, D 3 3 Rolled, D 4 4 Rolled, D 5 4 Rolled]"
    by (simp add: passTurn_spec_def dice_roll ts0_def pool0_def resetAll_def setState_def r
        preRoll_def bankKept_def rolledDice_def)
  have "status (passTurn_spec rnd1 ts0) =
      (if scoring_potential (map die_value (rolledDice (dice (passTurn_spec rnd1 ts0))))
       then Rolling else Farkle)"
    unfolding passTurn_spec_def by (rule status_roll)
  with np have 3: "status (passTurn_spec rnd1 ts0) = Farkle"
    by (simp add: d rolledDice_def)
  have 4: "status (newFarkleEngine rnd1 [''Player'', ''Computer'']) = Rolling"
    by (simp add: newFarkleEngine_def)
  have 5: "map die_value (dice (newFarkleEngine rnd1 [''Player'', ''Computer''])) = [2, 2, 3, 3, 4, 4]"
    by (simp add: newFarkleEngine_def createDice_eq r)
  from 1 np 3 4 5 show ?thesis by (intro conjI)
qed

text \<open>
  C3, amended. The C++ \<^verbatim>\<open>pass_turn()\<close> resets \<^verbatim>\<open>turn_score\<close> and \<^verbatim>\<open>current_keep_score\<close> to 0,
  advances \<^verbatim>\<open>current_player_index\<close> modulo the player count, resets all dice to Rolled, sets
  the status to Rolling and then performs one \<^verbatim>\<open>roll()\<close>: afterwards every die is Rolled
  and holds a fresh draw, and the status is the result of the Farkle check. The C++
  constructor ends by calling \<^verbatim>\<open>roll()\<close> once. The TypeScript \<^verbatim>\<open>passTurn()\<close> resets the two
  accumulators, advances the player, replaces the pool by six fresh Rolled dice with ids 0
  to 5 and new random values, sets the status to Rolling and performs no \<^verbatim>\<open>roll()\<close>; the
  TypeScript constructor likewise builds the pool and does not roll.
\<close>

theorem C3_pass_turn:
  "(player_scores c \<noteq> [] \<longrightarrow>
      (let c' = roll_cpp gen (c\<lparr>turn_score := 0, current_keep_score := 0,
                 current_player_index :=
                   (current_player_index c + 1) mod length (player_scores c),
                 dice_cpp := resetAll (dice_cpp c), status_cpp := Rolling\<rparr>)
       in pass_turn gen c = Inr c'
          \<and> turn_score c' = 0 \<and> current_keep_score c' = 0
          \<and> current_player_index c' = (current_player_index c + 1) mod length (player_scores c)
          \<and> player_scores c' = player_scores c
          \<and> map die_id (dice_cpp c') = map die_id (dice_cpp c)
          \<and> map die_state (dice_cpp c') = replicate (length (dice_cpp c)) Rolled
          \<and> map die_value (dice_cpp c') = map gen [0..<length (dice_cpp c)]
          \<and> status_cpp c' = (if scoring_potential (map gen [0..<length (dice_cpp c)])
                              then Rolling else Farkle)))
   \<and> newFarkleEngine_cpp gen n =
       roll_cpp gen \<lparr>player_scores = replicate n 0, current_player_index = 0,
         dice_cpp = [D 0 1 Rolled, D 1 1 Rolled, D 2 1 Rolled, D 3 1 Rolled, D 4 1 Rolled,
                     D 5 1 Rolled],
         turn_score = 0, current_keep_score = 0, status_cpp = Rolling, message_cpp = []\<rparr>
   \<and> dice_cpp (newFarkleEngine_cpp gen n)
       = [D 0 (gen 0) Rolled, D 1 (gen 1) Rolled, D 2 (gen 2) Rolled,
          D 3 (gen 3) Rolled, D 4 (gen 4) Rolled, D 5 (gen 5) Rolled]
   \<and> status_cpp (newFarkleEngine_cpp gen n)
       = (if scoring_potential [gen 0, gen 1, gen 2, gen 3, gen 4, gen 5] then Rolling
          else Farkle)
   \<and> (players e \<noteq> [] \<longrightarrow>
        passTurn rnd e =
          Inr (e\<lparr>turnScore := 0, currentKeepScore := 0,
                 currentPlayerIndex := (currentPlayerIndex e + 1) mod length (players e),
                 message := name (players e ! ((currentPlayerIndex e + 1) mod length (players e)))
                            @ [CHR 0x27] @ ''s Turn'',
                 dice := createDice rnd, status := Rolling\<rparr>))
   \<and> createDice rnd =
       [D 0 (rollDie (rnd 0)) Rolled, D 1 (rollDie (rnd 1)) Rolled, D 2 (rollDie (rnd 2)) Rolled,
        D 3 (rollDie (rnd 3)) Rolled, D 4 (rollDie (rnd 4)) Rolled, D 5 (rollDie (rnd 5)) Rolled]
   \<and> dice (newFarkleEngine rnd playerNames) = createDice rnd
   \<and> status (newFarkleEngine rnd playerNames) = Rolling
   \<and> turnScore (newFarkleEngine rnd playerNames) = 0
   \<and> currentKeepScore (newFarkleEngine rnd playerNames) = 0"
proof -
  have 1: "player_scores c \<noteq> [] \<longrightarrow>
      (let c' = roll_cpp gen (c\<lparr>turn_score := 0, current_keep_score := 0,
                 current_player_index :=
                   (current_player_index c + 1) mod length (player_scores c),
                 dice_cpp := resetAll (dice_cpp c), status_cpp := Rolling\<rparr>)
       in pass_turn gen c = Inr c'
          \<and> turn_score c' = 0 \<and> current_keep_score c' = 0
          \<and> current_player_index c' = (current_player_index c + 1) mod length (player_scores c)
          \<and> player_scores c' = player_scores c
          \<and> map die_id (dice_cpp c') = map die_id (dice_cpp c)
          \<and> map die_state (dice_cpp c') = replicate (length (dice_cpp c)) Rolled
          \<and> map die_value (dice_cpp c') = map gen [0..<length (dice_cpp c)]
          \<and> status_cpp c' = (if scoring_potential (map gen [0..<length (dice_cpp c)])
                              then Rolling else Farkle))"
  proof
    assume ne: "player_scores c \<noteq> []"
    then have "pass_turn gen c = Inr (roll_cpp gen (c\<lparr>turn_score := 0, current_keep_score := 0,
                 current_player_index :=
                   (current_player_index c + 1) mod length (player_scores c),
                 dice_cpp := resetAll (dice_cpp c), status_cpp := Rolling\<rparr>))"
      by (simp add: pass_turn_def)
    with pass_turn_post [OF ne this] show "let c' = roll_cpp gen (c\<lparr>turn_score := 0,
                 current_keep_score := 0,
                 current_player_index :=
                   (current_player_index c + 1) mod length (player_scores c),
                 dice_cpp := resetAll (dice_cpp c), status_cpp := Rolling\<rparr>)
       in pass_turn gen c = Inr c'
          \<and> turn_score c' = 0 \<and> current_keep_score c' = 0
          \<and> current_player_index c' = (current_player_index c + 1) mod length (player_scores c)
          \<and> player_scores c' = player_scores c
          \<and> map die_id (dice_cpp c') = map die_id (dice_cpp c)
          \<and> map die_state (dice_cpp c') = replicate (length (dice_cpp c)) Rolled
          \<and> map die_value (dice_cpp c') = map gen [0..<length (dice_cpp c)]
          \<and> status_cpp c' = (if scoring_potential (map gen [0..<length (dice_cpp c)])
                              then Rolling else Farkle)"
      unfolding Let_def by blast
  qed
  have 2: "newFarkleEngine_cpp gen n =
       roll_cpp gen \<lparr>player_scores = replicate n 0, current_player_index = 0,
         dice_cpp = [D 0 1 Rolled, D 1 1 Rolled, D 2 1 Rolled, D 3 1 Rolled, D 4 1 Rolled,
                     D 5 1 Rolled],
         turn_score = 0, current_keep_score = 0, status_cpp = Rolling, message_cpp = []\<rparr>"
    by (simp add: newFarkleEngine_cpp_def upt6)
  have 3: "players e \<noteq> [] \<longrightarrow>
        passTurn rnd e =
          Inr (e\<lparr>turnScore := 0, currentKeepScore := 0,
                 currentPlayerIndex := (currentPlayerIndex e + 1) mod length (players e),
                 message := name (players e ! ((currentPlayerIndex e + 1) mod length (players e)))
                            @ [CHR 0x27] @ ''s Turn'',
                 dice := createDice rnd, status := Rolling\<rparr>)"
    by (simp add: passTurn_def Let_def)
  have 4: "dice (newFarkleEngine rnd playerNames) = createDice rnd
   \<and> status (newFarkleEngine rnd playerNames) = Rolling
   \<and> turnScore (newFarkleEngine rnd playerNames) = 0
   \<and> currentKeepScore (newFarkleEngine rnd playerNames) = 0"
    by (simp add: newFarkleEngine_def)
  from 1 2 new_cpp_post [of gen n] 3 createDice_eq [of rnd] 4 show ?thesis
    by (intro conjI) blast+
qed

theorem C3_pass_turn_witness:
  "pass_turn gen1 cpp0 = Inr (roll_cpp gen1 (cpp0\<lparr>turn_score := 0, current_keep_score := 0,
      current_player_index := 1, dice_cpp := resetAll (dice_cpp cpp0), status_cpp := Rolling\<rparr>))
   \<and> status_cpp (roll_cpp gen1 (cpp0\<lparr>turn_score := 0, current_keep_score := 0,
      current_player_index := 1, dice_cpp := resetAll (dice_cpp cpp0), status_cpp := Rolling\<rparr>))
      = Farkle
   \<and> passTurn rnd1 ts0 =
     Inr (ts0\<lparr>turnScore := 0, currentKeepScore := 0, currentPlayerIndex := 1,
              message := ''Computer'' @ [CHR 0x27] @ ''s Turn'',
              dice := createDice rnd1, status := Rolling\<rparr>)"
proof -
  have a: "player_scores cpp0 \<noteq> []" "players ts0 \<noteq> []"
    by (simp_all add: cpp0_def ts0_def)
  have i: "(current_player_index cpp0 + 1) mod length (player_scores cpp0) = 1"
    "(currentPlayerIndex ts0 + 1) mod length (players ts0) = 1"
    "length (dice_cpp cpp0) = 6" "name (players ts0 ! 1) = ''Computer''"
    by (simp_all add: cpp0_def ts0_def pool0_def)
  have np: "\<not> scoring_potential (map gen1 [0, 1, 2, 3, 4, 5])"
    by (simp add: scoring_potential_def gen1_def)
  show ?thesis
    using a np C3_pass_turn [of cpp0 gen1 0 ts0 rnd1 "[]"]
    unfolding Let_def i upt6 by simp
qed

section \<open>C5: bank\<close>

lemma bank_win:
  assumes "turnScore e + currentKeepScore e > 0" and "currentPlayerIndex e < length (players e)"
    and "score (players e ! currentPlayerIndex e) + (turnScore e + currentKeepScore e) \<ge> 10000"
  shows "bank rnd e =
     Inr (e\<lparr>turnScore := turnScore e + currentKeepScore e,
            currentKeepScore := 0,
            dice := bankKept (dice e),
            players := (players e)[currentPlayerIndex e :=
               (players e ! currentPlayerIndex e)\<lparr>score :=
                  score (players e ! currentPlayerIndex e)
                    + (turnScore e + currentKeepScore e)\<rparr>],
            status := Win,
            message := name (players e ! currentPlayerIndex e) @ '' Wins!''\<rparr>)"
proof -
  from assms(1) have "\<not> (currentKeepScore e = 0 \<and> turnScore e = 0)" by auto
  with assms(2,3) show ?thesis
    by (auto simp: bank_def Let_def)
qed

lemma bank_pass:
  assumes "turnScore e + currentKeepScore e > 0" and "currentPlayerIndex e < length (players e)"
    and "score (players e ! currentPlayerIndex e) + (turnScore e + currentKeepScore e) < 10000"
  shows "bank rnd e =
     passTurn rnd (e\<lparr>turnScore := turnScore e + currentKeepScore e,
            currentKeepScore := 0,
            dice := bankKept (dice e),
            players := (players e)[currentPlayerIndex e :=
               (players e ! currentPlayerIndex e)\<lparr>score :=
                  score (players e ! currentPlayerIndex e)
                    + (turnScore e + currentKeepScore e)\<rparr>]\<rparr>)"
proof -
  from assms(1) have "\<not> (currentKeepScore e = 0 \<and> turnScore e = 0)" by auto
  with assms(2,3) show ?thesis
    by (auto simp: bank_def Let_def)
qed

lemma bank_cpp_win:
  assumes "turn_score c + current_keep_score c > 0"
    and "current_player_index c < length (player_scores c)"
    and "player_scores c ! current_player_index c + (turn_score c + current_keep_score c) \<ge> 10000"
  shows "bank_cpp gen c =
     Inr (c\<lparr>turn_score := turn_score c + current_keep_score c,
            current_keep_score := 0,
            dice_cpp := bankKept (dice_cpp c),
            player_scores := (player_scores c)[current_player_index c :=
               player_scores c ! current_player_index c
                 + (turn_score c + current_keep_score c)],
            status_cpp := Win\<rparr>)"
proof -
  from assms(1) have "\<not> (current_keep_score c = 0 \<and> turn_score c = 0)" by auto
  with assms(2,3) show ?thesis
    by (auto simp: bank_cpp_def Let_def)
qed

lemma bank_cpp_pass:
  assumes "turn_score c + current_keep_score c > 0"
    and "current_player_index c < length (player_scores c)"
    and "player_scores c ! current_player_index c + (turn_score c + current_keep_score c) < 10000"
  shows "bank_cpp gen c =
     pass_turn gen (c\<lparr>turn_score := turn_score c + current_keep_score c,
            current_keep_score := 0,
            dice_cpp := bankKept (dice_cpp c),
            player_scores := (player_scores c)[current_player_index c :=
               player_scores c ! current_player_index c
                 + (turn_score c + current_keep_score c)]\<rparr>)"
proof -
  from assms(1) have "\<not> (current_keep_score c = 0 \<and> turn_score c = 0)" by auto
  with assms(2,3) show ?thesis
    by (auto simp: bank_cpp_def Let_def)
qed

lemma bankKept_states:
  "map die_state (bankKept ds) = map (\<lambda>d. if die_state d = Kept then Banked else die_state d) ds"
  by (simp add: bankKept_def)

lemma bankKept_values [simp]: "map die_value (bankKept ds) = map die_value ds"
  by (simp add: bankKept_def)

text \<open>
  C5: in a state with \<^verbatim>\<open>turnScore + currentKeepScore > 0\<close> (and a current player that
  exists), \<^verbatim>\<open>bank()\<close> adds \<^verbatim>\<open>currentKeepScore\<close> into \<^verbatim>\<open>turnScore\<close>, zeroes
  \<^verbatim>\<open>currentKeepScore\<close>, moves every Kept die to Banked and adds \<^verbatim>\<open>turnScore\<close> to the current
  player's score. If that total is at least 10000 the result is this state with status Win
  (player index and dice as they are); otherwise the result is \<^verbatim>\<open>passTurn()\<close> of this state.
  Both engines.
\<close>

theorem C5_bank:
  "(turnScore e + currentKeepScore e > 0 \<and> currentPlayerIndex e < length (players e) \<longrightarrow>
      (let i = currentPlayerIndex e;
           t = turnScore e + currentKeepScore e;
           total = score (players e ! i) + t;
           e1 = e\<lparr>turnScore := t, currentKeepScore := 0, dice := bankKept (dice e),
                  players := (players e)[i := (players e ! i)\<lparr>score := total\<rparr>]\<rparr>
       in (if total \<ge> 10000
           then bank rnd e = Inr (e1\<lparr>status := Win, message := name (players e ! i) @ '' Wins!''\<rparr>)
           else bank rnd e = passTurn rnd e1)
          \<and> keptDice (dice e1) = []
          \<and> map die_state (dice e1)
              = map (\<lambda>d. if die_state d = Kept then Banked else die_state d) (dice e)
          \<and> map die_value (dice e1) = map die_value (dice e)
          \<and> map die_id (dice e1) = map die_id (dice e)))
   \<and> (turn_score c + current_keep_score c > 0
        \<and> current_player_index c < length (player_scores c) \<longrightarrow>
      (let i = current_player_index c;
           t = turn_score c + current_keep_score c;
           total = player_scores c ! i + t;
           c1 = c\<lparr>turn_score := t, current_keep_score := 0, dice_cpp := bankKept (dice_cpp c),
                  player_scores := (player_scores c)[i := total]\<rparr>
       in (if total \<ge> 10000
           then bank_cpp gen c = Inr (c1\<lparr>status_cpp := Win\<rparr>)
           else bank_cpp gen c = pass_turn gen c1)
          \<and> keptDice (dice_cpp c1) = []
          \<and> map die_state (dice_cpp c1)
              = map (\<lambda>d. if die_state d = Kept then Banked else die_state d) (dice_cpp c)
          \<and> map die_value (dice_cpp c1) = map die_value (dice_cpp c)
          \<and> map die_id (dice_cpp c1) = map die_id (dice_cpp c)))"
proof (intro conjI impI)
  assume a: "turnScore e + currentKeepScore e > 0 \<and> currentPlayerIndex e < length (players e)"
  show "let i = currentPlayerIndex e;
           t = turnScore e + currentKeepScore e;
           total = score (players e ! i) + t;
           e1 = e\<lparr>turnScore := t, currentKeepScore := 0, dice := bankKept (dice e),
                  players := (players e)[i := (players e ! i)\<lparr>score := total\<rparr>]\<rparr>
       in (if total \<ge> 10000
           then bank rnd e = Inr (e1\<lparr>status := Win, message := name (players e ! i) @ '' Wins!''\<rparr>)
           else bank rnd e = passTurn rnd e1)
          \<and> keptDice (dice e1) = []
          \<and> map die_state (dice e1)
              = map (\<lambda>d. if die_state d = Kept then Banked else die_state d) (dice e)
          \<and> map die_value (dice e1) = map die_value (dice e)
          \<and> map die_id (dice e1) = map die_id (dice e)"
  proof (cases "score (players e ! currentPlayerIndex e) + (turnScore e + currentKeepScore e)
      \<ge> 10000")
    case True
    with a bank_win [of e rnd] show ?thesis
      by (simp add: Let_def bankKept_states)
  next
    case False
    with a bank_pass [of e rnd] show ?thesis
      by (simp add: Let_def bankKept_states)
  qed
next
  assume a: "turn_score c + current_keep_score c > 0
        \<and> current_player_index c < length (player_scores c)"
  show "let i = current_player_index c;
           t = turn_score c + current_keep_score c;
           total = player_scores c ! i + t;
           c1 = c\<lparr>turn_score := t, current_keep_score := 0, dice_cpp := bankKept (dice_cpp c),
                  player_scores := (player_scores c)[i := total]\<rparr>
       in (if total \<ge> 10000
           then bank_cpp gen c = Inr (c1\<lparr>status_cpp := Win\<rparr>)
           else bank_cpp gen c = pass_turn gen c1)
          \<and> keptDice (dice_cpp c1) = []
          \<and> map die_state (dice_cpp c1)
              = map (\<lambda>d. if die_state d = Kept then Banked else die_state d) (dice_cpp c)
          \<and> map die_value (dice_cpp c1) = map die_value (dice_cpp c)
          \<and> map die_id (dice_cpp c1) = map die_id (dice_cpp c)"
  proof (cases "player_scores c ! current_player_index c
      + (turn_score c + current_keep_score c) \<ge> 10000")
    case True
    with a bank_cpp_win [of c gen] show ?thesis
      by (simp add: Let_def bankKept_states)
  next
    case False
    with a bank_cpp_pass [of c gen] show ?thesis
      by (simp add: Let_def bankKept_states)
  qed
qed

theorem C5_bank_witness:
  "bank rnd0 ts1 =
     Inr (ts1\<lparr>turnScore := 150, currentKeepScore := 0,
              dice := [D 0 1 Banked, D 1 5 Banked, D 2 3 Rolled, D 3 3 Rolled, D 4 4 Rolled,
                       D 5 6 Rolled],
              players := [\<lparr>player_id = 0, player_type = human, name = ''Player'', score = 10050\<rparr>,
                          \<lparr>player_id = 1, player_type = computer, name = ''Computer'', score = 0\<rparr>],
              status := Win, message := ''Player Wins!''\<rparr>)
   \<and> bank_cpp gen0 cpp0 =
       pass_turn gen0 (cpp0\<lparr>turn_score := 150, current_keep_score := 0,
              dice_cpp := [D 0 1 Banked, D 1 5 Banked, D 2 3 Rolled, D 3 3 Rolled, D 4 4 Rolled,
                       D 5 6 Rolled],
              player_scores := [150, 0]\<rparr>)"
proof -
  have a: "turnScore ts1 + currentKeepScore ts1 > 0 \<and> currentPlayerIndex ts1 < length (players ts1)"
    "turn_score cpp0 + current_keep_score cpp0 > 0
        \<and> current_player_index cpp0 < length (player_scores cpp0)"
    by (simp_all add: ts1_def cpp0_def)
  have b: "bankKept pool0 = [D 0 1 Banked, D 1 5 Banked, D 2 3 Rolled, D 3 3 Rolled,
      D 4 4 Rolled, D 5 6 Rolled]"
    by (simp add: pool0_def bankKept_def setState_def)
  have f: "turnScore ts1 = 50" "currentKeepScore ts1 = 100" "currentPlayerIndex ts1 = 0"
    "dice ts1 = pool0"
    "players ts1 = [\<lparr>player_id = 0, player_type = human, name = ''Player'', score = 9900\<rparr>,
                    \<lparr>player_id = 1, player_type = computer, name = ''Computer'', score = 0\<rparr>]"
    "turn_score cpp0 = 50" "current_keep_score cpp0 = 100" "current_player_index cpp0 = 0"
    "dice_cpp cpp0 = pool0" "player_scores cpp0 = [0, 0]"
    by (simp_all add: ts1_def cpp0_def)
  show ?thesis
    using a C5_bank [of ts1 rnd0 cpp0 gen0]
    unfolding Let_def f b by simp
qed

section \<open>C10: terminal states at the public interface\<close>

lemma bankKept_idem [simp]: "bankKept (bankKept ds) = bankKept ds"
  by (rule bankKept_id) simp

lemma passTurn_status: "passTurn rnd e = Inr e' \<Longrightarrow> status e' = Rolling"
  by (auto simp: passTurn_def Let_def split: if_splits)

lemma pass_turn_status: "pass_turn gen c = Inr c' \<Longrightarrow> status_cpp c' \<noteq> Win"
  by (auto simp: pass_turn_def status_roll_cpp split: if_splits)

lemma bank_Win_result:
  assumes b: "bank rnd e = Inr e1" and w: "status e1 = Win"
    and t: "turnScore e + currentKeepScore e > 0"
  shows "currentPlayerIndex e < length (players e)
    \<and> score (players e ! currentPlayerIndex e) + (turnScore e + currentKeepScore e) \<ge> 10000"
proof -
  from t have nz: "\<not> (currentKeepScore e = 0 \<and> turnScore e = 0)" by auto
  with b have i: "currentPlayerIndex e < length (players e)"
    by (auto simp: bank_def split: if_splits)
  have "score (players e ! currentPlayerIndex e) + (turnScore e + currentKeepScore e) \<ge> 10000"
  proof (rule ccontr)
    assume "\<not> ?thesis"
    then have "score (players e ! currentPlayerIndex e) + (turnScore e + currentKeepScore e)
        < 10000"
      by simp
    from bank_pass [OF t i this, of rnd] b passTurn_status w show False by fastforce
  qed
  with i show ?thesis by simp
qed

lemma bank_cpp_Win_result:
  assumes b: "bank_cpp gen c = Inr c1" and w: "status_cpp c1 = Win"
    and t: "turn_score c + current_keep_score c > 0"
  shows "current_player_index c < length (player_scores c)
    \<and> player_scores c ! current_player_index c + (turn_score c + current_keep_score c) \<ge> 10000"
proof -
  from t have nz: "\<not> (current_keep_score c = 0 \<and> turn_score c = 0)" by auto
  with b have i: "current_player_index c < length (player_scores c)"
    by (auto simp: bank_cpp_def split: if_splits)
  have "player_scores c ! current_player_index c + (turn_score c + current_keep_score c)
      \<ge> 10000"
  proof (rule ccontr)
    assume "\<not> ?thesis"
    then have "player_scores c ! current_player_index c
        + (turn_score c + current_keep_score c) < 10000"
      by simp
    from bank_cpp_pass [OF t i this, of gen] b pass_turn_status w show False by fastforce
  qed
  with i show ?thesis by simp
qed

lemma bank_twice:
  assumes b: "bank rnd e = Inr e1" and w: "status e1 = Win"
    and t: "turnScore e + currentKeepScore e > 0"
  shows "turnScore e1 = turnScore e + currentKeepScore e
    \<and> currentPlayerIndex e1 = currentPlayerIndex e
    \<and> bank rnd' e1 =
        Inr (e1\<lparr>players := (players e1)[currentPlayerIndex e1 :=
               (players e1 ! currentPlayerIndex e1)\<lparr>score :=
                  score (players e1 ! currentPlayerIndex e1) + turnScore e1\<rparr>]\<rparr>)"
proof -
  from bank_Win_result [OF b w t]
  have i: "currentPlayerIndex e < length (players e)"
    and s: "score (players e ! currentPlayerIndex e) + (turnScore e + currentKeepScore e) \<ge> 10000"
    by simp_all
  from bank_win [OF t i s, of rnd] b
  have e1: "e1 = e\<lparr>turnScore := turnScore e + currentKeepScore e,
            currentKeepScore := 0,
            dice := bankKept (dice e),
            players := (players e)[currentPlayerIndex e :=
               (players e ! currentPlayerIndex e)\<lparr>score :=
                  score (players e ! currentPlayerIndex e)
                    + (turnScore e + currentKeepScore e)\<rparr>],
            status := Win,
            message := name (players e ! currentPlayerIndex e) @ '' Wins!''\<rparr>"
    by simp
  have t1: "turnScore e1 + currentKeepScore e1 > 0"
    using t by (simp add: e1)
  have i1: "currentPlayerIndex e1 < length (players e1)"
    using i by (simp add: e1)
  have s1: "score (players e1 ! currentPlayerIndex e1) + (turnScore e1 + currentKeepScore e1)
      \<ge> 10000"
    using s t i by (simp add: e1)
  show ?thesis
    using i by (simp add: bank_win [OF t1 i1 s1, of rnd']) (simp add: e1)
qed

lemma bank_cpp_twice:
  assumes b: "bank_cpp gen c = Inr c1" and w: "status_cpp c1 = Win"
    and t: "turn_score c + current_keep_score c > 0"
  shows "turn_score c1 = turn_score c + current_keep_score c
    \<and> current_player_index c1 = current_player_index c
    \<and> bank_cpp gen' c1 =
        Inr (c1\<lparr>player_scores := (player_scores c1)[current_player_index c1 :=
               player_scores c1 ! current_player_index c1 + turn_score c1]\<rparr>)"
proof -
  from bank_cpp_Win_result [OF b w t]
  have i: "current_player_index c < length (player_scores c)"
    and s: "player_scores c ! current_player_index c + (turn_score c + current_keep_score c)
      \<ge> 10000"
    by simp_all
  from bank_cpp_win [OF t i s, of gen] b
  have c1: "c1 = c\<lparr>turn_score := turn_score c + current_keep_score c,
            current_keep_score := 0,
            dice_cpp := bankKept (dice_cpp c),
            player_scores := (player_scores c)[current_player_index c :=
               player_scores c ! current_player_index c
                 + (turn_score c + current_keep_score c)],
            status_cpp := Win\<rparr>"
    by simp
  have t1: "turn_score c1 + current_keep_score c1 > 0"
    using t by (simp add: c1)
  have i1: "current_player_index c1 < length (player_scores c1)"
    using i by (simp add: c1)
  have s1: "player_scores c1 ! current_player_index c1
      + (turn_score c1 + current_keep_score c1) \<ge> 10000"
    using s t i by (simp add: c1)
  show ?thesis
    using i by (simp add: bank_cpp_win [OF t1 i1 s1, of gen']) (simp add: c1)
qed

lemma roll_ignores_status: "roll rnd (e\<lparr>status := s\<rparr>) = roll rnd e"
  by (simp add: roll_eq Let_def)

lemma roll_cpp_ignores_status: "roll_cpp gen (c\<lparr>status_cpp := s\<rparr>) = roll_cpp gen c"
  by (simp add: roll_cpp_eq Let_def)

text \<open>
  C10: neither \<^verbatim>\<open>roll()\<close> nor \<^verbatim>\<open>bank()\<close> reads the status. When a \<^verbatim>\<open>bank()\<close> that committed
  \<open>t > 0\<close> has set the status to Win, \<^verbatim>\<open>turnScore\<close> still is \<open>t\<close>, and a second \<^verbatim>\<open>bank()\<close>
  adds \<open>t\<close> to the winner's score again and changes nothing else. The result of \<^verbatim>\<open>roll()\<close>
  does not depend on the status it starts from. Both engines.
\<close>

theorem C10_terminal_not_frozen:
  "(bank rnd e = Inr e1 \<and> status e1 = Win \<and> turnScore e + currentKeepScore e > 0 \<longrightarrow>
      turnScore e1 = turnScore e + currentKeepScore e
      \<and> currentPlayerIndex e1 = currentPlayerIndex e
      \<and> bank rnd' e1 =
          Inr (e1\<lparr>players := (players e1)[currentPlayerIndex e1 :=
                 (players e1 ! currentPlayerIndex e1)\<lparr>score :=
                    score (players e1 ! currentPlayerIndex e1) + turnScore e1\<rparr>]\<rparr>))
   \<and> roll rnd (e\<lparr>status := Farkle\<rparr>) = roll rnd e
   \<and> roll rnd (e\<lparr>status := Win\<rparr>) = roll rnd e
   \<and> (bank_cpp gen c = Inr c1 \<and> status_cpp c1 = Win \<and> turn_score c + current_keep_score c > 0
        \<longrightarrow>
      turn_score c1 = turn_score c + current_keep_score c
      \<and> current_player_index c1 = current_player_index c
      \<and> bank_cpp gen' c1 =
          Inr (c1\<lparr>player_scores := (player_scores c1)[current_player_index c1 :=
                 player_scores c1 ! current_player_index c1 + turn_score c1]\<rparr>))
   \<and> roll_cpp gen (c\<lparr>status_cpp := Farkle\<rparr>) = roll_cpp gen c
   \<and> roll_cpp gen (c\<lparr>status_cpp := Win\<rparr>) = roll_cpp gen c"
  using bank_twice [of rnd e e1 rnd'] bank_cpp_twice [of gen c c1 gen']
  by (simp only: roll_ignores_status roll_cpp_ignores_status) blast

theorem C10_terminal_not_frozen_witness:
  "bank rnd0 ts1 = Inr ts1_won
   \<and> bank rnd1 ts1_won =
       Inr (ts1_won\<lparr>players :=
              [\<lparr>player_id = 0, player_type = human, name = ''Player'', score = 10200\<rparr>,
               \<lparr>player_id = 1, player_type = computer, name = ''Computer'', score = 0\<rparr>]\<rparr>)
   \<and> bank_cpp gen0 cpp1 = Inr cpp1_won
   \<and> bank_cpp gen1 cpp1_won = Inr (cpp1_won\<lparr>player_scores := [10200, 0]\<rparr>)"
proof -
  have 1: "bank rnd0 ts1 = Inr ts1_won"
    by (simp add: bank_def ts1_def ts1_won_def pool0_def bankKept_def setState_def)
  have 2: "bank_cpp gen0 cpp1 = Inr cpp1_won"
    by (simp add: bank_cpp_def cpp1_def cpp1_won_def pool0_def bankKept_def setState_def)
  have h: "status ts1_won = Win" "turnScore ts1 + currentKeepScore ts1 > 0"
    "status_cpp cpp1_won = Win" "turn_score cpp1 + current_keep_score cpp1 > 0"
    by (simp_all add: ts1_def ts1_won_def cpp1_def cpp1_won_def)
  have f: "currentPlayerIndex ts1_won = 0" "turnScore ts1_won = 150"
    "players ts1_won =
       [\<lparr>player_id = 0, player_type = human, name = ''Player'', score = 10050\<rparr>,
        \<lparr>player_id = 1, player_type = computer, name = ''Computer'', score = 0\<rparr>]"
    "current_player_index cpp1_won = 0" "turn_score cpp1_won = 150"
    "player_scores cpp1_won = [10050, 0]"
    by (simp_all add: ts1_won_def cpp1_won_def)
  show ?thesis
    using 1 2 h C10_terminal_not_frozen [of rnd0 ts1 ts1_won rnd1 gen0 cpp1 cpp1_won gen1]
    unfolding f by simp
qed

section \<open>Invariants of the reachable states\<close>

lemma keptDice_createDice [simp]: "keptDice (createDice rnd) = []"
  by (simp add: createDice_def keptDice_def)

lemma ids_createDice [simp]: "map die_id (createDice rnd) = [0, 1, 2, 3, 4, 5]"
  by (simp add: createDice_eq)

lemma keptDice_preRoll [simp]: "keptDice (preRoll ds) = []"
  by (simp add: preRoll_def Let_def)

lemma ids_preRoll [simp]: "map die_id (preRoll ds) = map die_id ds"
  by (simp add: preRoll_def Let_def)

lemma keptDice_roll [simp]: "keptDice (dice (roll rnd e)) = []"
  by (simp add: dice_roll keptDice_assignValues_Nil)

lemma keptDice_roll_cpp [simp]: "keptDice (dice_cpp (roll_cpp gen c)) = []"
  by (simp add: dice_roll_cpp keptDice_assignValues_Nil)

lemma keep_roll:
  "currentKeepScore e = evaluateScoring (keptDice (dice e))
   \<Longrightarrow> currentKeepScore (roll rnd e) = 0"
  by (simp add: roll_eq Let_def evaluateScoring_Nil)

lemma keep_roll_cpp: "current_keep_score (roll_cpp gen c) = 0"
  by (simp add: roll_cpp_eq Let_def)

lemma keep_toggleKeep:
  "currentKeepScore e = evaluateScoring (keptDice (dice e))
   \<Longrightarrow> currentKeepScore (toggleKeep i e) = evaluateScoring (keptDice (dice (toggleKeep i e)))"
  by (simp add: toggleKeep_def recalcKeepScore_def Let_def split: option.splits)

lemma keep_toggle_keep:
  "current_keep_score c = evaluate_scoring (map die_value (keptDice (dice_cpp c)))
   \<Longrightarrow> current_keep_score (toggle_keep i c)
       = evaluate_scoring (map die_value (keptDice (dice_cpp (toggle_keep i c))))"
  by (simp add: toggle_keep_def recalc_keep_score_def Let_def split: option.splits)

lemma keep_passTurn:
  "passTurn rnd e = Inr e' \<Longrightarrow> currentKeepScore e' = evaluateScoring (keptDice (dice e'))"
  by (auto simp: passTurn_def Let_def evaluateScoring_Nil split: if_splits)

lemma keep_pass_turn:
  "pass_turn gen c = Inr c'
   \<Longrightarrow> current_keep_score c' = evaluate_scoring (map die_value (keptDice (dice_cpp c')))"
  by (auto simp: pass_turn_def keep_roll_cpp evaluate_scoring_Nil split: if_splits)

lemma keep_bank:
  assumes "currentKeepScore e = evaluateScoring (keptDice (dice e))" and "bank rnd e = Inr e'"
  shows "currentKeepScore e' = evaluateScoring (keptDice (dice e'))"
proof (cases "currentKeepScore e = 0 \<and> turnScore e = 0")
  case True
  with assms show ?thesis by (simp add: bank_def)
next
  case False
  with assms(2) show ?thesis
    by (auto simp: bank_def Let_def evaluateScoring_Nil split: if_splits dest: keep_passTurn)
qed

lemma keep_bank_cpp:
  assumes "current_keep_score c = evaluate_scoring (map die_value (keptDice (dice_cpp c)))"
    and "bank_cpp gen c = Inr c'"
  shows "current_keep_score c' = evaluate_scoring (map die_value (keptDice (dice_cpp c')))"
proof (cases "current_keep_score c = 0 \<and> turn_score c = 0")
  case True
  with assms show ?thesis by (simp add: bank_cpp_def)
next
  case False
  with assms(2) show ?thesis
    by (auto simp: bank_cpp_def Let_def evaluate_scoring_Nil split: if_splits dest: keep_pass_turn)
qed

lemma reachable_keep:
  "reachable e \<Longrightarrow> currentKeepScore e = evaluateScoring (keptDice (dice e))"
proof (induction rule: reachable.induct)
  case (r_new rnd playerNames)
  show ?case by (simp add: newFarkleEngine_def evaluateScoring_Nil)
next
  case (r_roll e rnd)
  then show ?case by (simp add: keep_roll evaluateScoring_Nil)
next
  case (r_toggleKeep e dieId)
  then show ?case by (simp add: keep_toggleKeep)
next
  case (r_bank e rnd e')
  then show ?case by (simp add: keep_bank)
next
  case (r_passTurn e rnd e')
  then show ?case by (simp add: keep_passTurn)
qed

lemma reachable_cpp_keep:
  "reachable_cpp c
   \<Longrightarrow> current_keep_score c = evaluate_scoring (map die_value (keptDice (dice_cpp c)))"
proof (induction rule: reachable_cpp.induct)
  case (c_new gen num_players)
  show ?case by (simp add: newFarkleEngine_cpp_def keep_roll_cpp evaluate_scoring_Nil)
next
  case (c_roll e gen)
  show ?case by (simp add: keep_roll_cpp evaluate_scoring_Nil)
next
  case (c_toggle_keep e dieId)
  then show ?case by (simp add: keep_toggle_keep)
next
  case (c_bank e gen e')
  then show ?case by (simp add: keep_bank_cpp)
next
  case (c_pass_turn e gen e')
  then show ?case by (simp add: keep_pass_turn)
next
  case (c_recalc_keep_score e)
  show ?case by (simp add: recalc_keep_score_def)
qed

lemma countState_sum:
  "countState Rolled ds + countState Kept ds + countState Banked ds = length ds"
proof (induction ds)
  case Nil
  show ?case by (simp add: countState_def)
next
  case (Cons d ds)
  then show ?case by (cases "die_state d") (simp_all add: countState_def)
qed

lemma ids_roll [simp]: "map die_id (dice (roll rnd e)) = map die_id (dice e)"
  by (simp add: dice_roll)

lemma ids_roll_cpp [simp]: "map die_id (dice_cpp (roll_cpp gen c)) = map die_id (dice_cpp c)"
  by (simp add: dice_roll_cpp)

lemma ids_toggleKeep [simp]: "map die_id (dice (toggleKeep i e)) = map die_id (dice e)"
  by (simp add: toggleKeep_def recalcKeepScore_def Let_def split: option.splits)

lemma ids_toggle_keep [simp]: "map die_id (dice_cpp (toggle_keep i c)) = map die_id (dice_cpp c)"
  by (simp add: toggle_keep_def recalc_keep_score_def Let_def split: option.splits)

lemma ids_passTurn: "passTurn rnd e = Inr e' \<Longrightarrow> map die_id (dice e') = [0, 1, 2, 3, 4, 5]"
  by (auto simp: passTurn_def Let_def split: if_splits)

lemma ids_pass_turn:
  "pass_turn gen c = Inr c' \<Longrightarrow> map die_id (dice_cpp c') = map die_id (dice_cpp c)"
  by (auto simp: pass_turn_def split: if_splits)

lemma ids_bank:
  "bank rnd e = Inr e' \<Longrightarrow> map die_id (dice e) = [0, 1, 2, 3, 4, 5]
   \<Longrightarrow> map die_id (dice e') = [0, 1, 2, 3, 4, 5]"
  by (auto simp: bank_def Let_def split: if_splits dest: ids_passTurn)

lemma ids_bank_cpp:
  "bank_cpp gen c = Inr c' \<Longrightarrow> map die_id (dice_cpp c') = map die_id (dice_cpp c)"
  by (auto simp: bank_cpp_def Let_def split: if_splits dest: ids_pass_turn)

lemma reachable_ids: "reachable e \<Longrightarrow> map die_id (dice e) = [0, 1, 2, 3, 4, 5]"
proof (induction rule: reachable.induct)
  case (r_new rnd playerNames)
  show ?case by (simp add: newFarkleEngine_def)
next
  case (r_roll e rnd)
  then show ?case by simp
next
  case (r_toggleKeep e dieId)
  then show ?case by simp
next
  case (r_bank e rnd e')
  then show ?case by (simp add: ids_bank)
next
  case (r_passTurn e rnd e')
  then show ?case by (simp add: ids_passTurn)
qed

lemma reachable_cpp_ids: "reachable_cpp c \<Longrightarrow> map die_id (dice_cpp c) = [0, 1, 2, 3, 4, 5]"
proof (induction rule: reachable_cpp.induct)
  case (c_new gen num_players)
  show ?case by (simp add: newFarkleEngine_cpp_def upt6)
next
  case (c_roll e gen)
  then show ?case by simp
next
  case (c_toggle_keep e dieId)
  then show ?case by simp
next
  case (c_bank e gen e')
  then show ?case by (simp add: ids_bank_cpp)
next
  case (c_pass_turn e gen e')
  then show ?case by (simp add: ids_pass_turn)
next
  case (c_recalc_keep_score e)
  then show ?case by (simp add: recalc_keep_score_def)
qed

lemma pool_of_ids:
  assumes "map die_id ds = [0, 1, 2, 3, 4, 5]"
  shows "length ds = 6
    \<and> countState Rolled ds + countState Kept ds + countState Banked ds = 6
    \<and> distinct (map die_id ds)"
proof -
  from assms have "length (map die_id ds) = 6" by simp
  then have "length ds = 6" by simp
  with assms countState_sum [of ds] show ?thesis by simp
qed

lemma ts2_eq:
  "ts2 = \<lparr>players = [\<lparr>player_id = 0, player_type = human, name = ''Player'', score = 0\<rparr>,
                    \<lparr>player_id = 1, player_type = computer, name = ''Computer'', score = 0\<rparr>],
          currentPlayerIndex = 0,
          dice = [D 0 1 Rolled, D 1 1 Rolled, D 2 1 Rolled, D 3 2 Rolled, D 4 3 Rolled,
                  D 5 4 Rolled],
          turnScore = 0, currentKeepScore = 0,
          status = Rolling, message = ''Welcome to Farkle! Roll to start.''\<rparr>"
  by (simp add: ts2_def newFarkleEngine_def createDice_eq rollDie_def rnd2_def enumerate_eq_zip
      upt_rec)

lemma cpp2_eq:
  "cpp2 = \<lparr>player_scores = [0, 0], current_player_index = 0,
           dice_cpp = [D 0 1 Rolled, D 1 1 Rolled, D 2 1 Rolled, D 3 2 Rolled, D 4 3 Rolled,
                       D 5 4 Rolled],
           turn_score = 0, current_keep_score = 0, status_cpp = Rolling, message_cpp = []\<rparr>"
proof -
  have p: "preRoll [D 0 1 Rolled, D 1 1 Rolled, D 2 1 Rolled, D 3 1 Rolled, D 4 1 Rolled,
      D 5 1 Rolled] = [D 0 1 Rolled, D 1 1 Rolled, D 2 1 Rolled, D 3 1 Rolled, D 4 1 Rolled,
      D 5 1 Rolled]"
    by (simp add: preRoll_def bankKept_def rolledDice_def)
  have sp: "scoring_potential [1, 1, 1, 2, 3, 4]"
    by (simp add: scoring_potential_def)
  show ?thesis
    using sp
    by (simp add: cpp2_def newFarkleEngine_cpp_def roll_cpp_eq Let_def upt6 p rolledDice_def
        gen2_def numeral_2_eq_2)
qed

lemma toggleKeep_ts2:
  "toggleKeep 0 ts2 =
     ts2\<lparr>dice := [D 0 1 Kept, D 1 1 Kept, D 2 1 Kept, D 3 2 Rolled, D 4 3 Rolled, D 5 4 Rolled],
         currentKeepScore := 1000\<rparr>"
proof -
  have "evaluateScoring [D 0 1 Kept, D 1 1 Kept, D 2 1 Kept] = 1000"
    by (simp add: evaluateScoring_groups group_face_score_def base_score_def)
  then show ?thesis
    by (simp add: ts2_eq toggleKeep_def findDie_def recalcKeepScore_def keptDice_def setState_def)
qed

lemma toggle_keep_cpp2:
  "toggle_keep 0 cpp2 =
     cpp2\<lparr>dice_cpp := [D 0 1 Kept, D 1 1 Kept, D 2 1 Kept, D 3 2 Rolled, D 4 3 Rolled,
                       D 5 4 Rolled],
          current_keep_score := 1000\<rparr>"
proof -
  have "evaluate_scoring [1, 1, 1] = 1000"
    by (simp add: evaluate_scoring_doubling doubling_score_def face_score_def base_score_def)
  then show ?thesis
    by (simp add: cpp2_eq toggle_keep_def findDie_def recalc_keep_score_def keptDice_def
        setState_def)
qed

lemma reachable_toggleKeep_ts2: "reachable (toggleKeep 0 ts2)"
  unfolding ts2_def by (rule r_toggleKeep) (rule r_new)

lemma reachable_toggle_keep_cpp2: "reachable_cpp (toggle_keep 0 cpp2)"
  unfolding cpp2_def by (rule c_toggle_keep) (rule c_new)

section \<open>C7: the keep score\<close>

text \<open>
  C7: in every state reachable by construction, \<^verbatim>\<open>roll\<close>, \<^verbatim>\<open>toggleKeep\<close>, \<^verbatim>\<open>bank\<close> and
  \<^verbatim>\<open>passTurn\<close>, \<^verbatim>\<open>currentKeepScore\<close> is the scoring evaluator of the engine applied to the
  dice in state Kept. Both engines, each with its own evaluator.
\<close>

theorem C7_keep_score:
  "(reachable e \<longrightarrow> currentKeepScore e = evaluateScoring (keptDice (dice e)))
   \<and> (reachable_cpp c \<longrightarrow>
        current_keep_score c = evaluate_scoring (map die_value (keptDice (dice_cpp c))))"
  using reachable_keep [of e] reachable_cpp_keep [of c] by blast

theorem C7_keep_score_witness:
  "currentKeepScore (toggleKeep 0 ts2) = evaluateScoring [D 0 1 Kept, D 1 1 Kept, D 2 1 Kept]
   \<and> current_keep_score (toggle_keep 0 cpp2) = evaluate_scoring [1, 1, 1]"
proof -
  have k: "keptDice (dice (toggleKeep 0 ts2)) = [D 0 1 Kept, D 1 1 Kept, D 2 1 Kept]"
    "map die_value (keptDice (dice_cpp (toggle_keep 0 cpp2))) = [1, 1, 1]"
    by (simp_all add: toggleKeep_ts2 toggle_keep_cpp2 keptDice_def)
  show ?thesis
    using reachable_toggleKeep_ts2 reachable_toggle_keep_cpp2
      C7_keep_score [of "toggleKeep 0 ts2" "toggle_keep 0 cpp2"]
    unfolding k by simp
qed

section \<open>C8: the dice pool\<close>

text \<open>
  C8: in every reachable state the pool holds exactly 6 dice, the numbers of Rolled, Kept
  and Banked dice add up to 6, and the ids are 0 to 5 in pool order: unique, and the same
  in every reachable state. Both engines.
\<close>

theorem C8_dice_pool:
  "(reachable e \<longrightarrow>
      length (dice e) = 6
      \<and> countState Rolled (dice e) + countState Kept (dice e) + countState Banked (dice e) = 6
      \<and> map die_id (dice e) = [0, 1, 2, 3, 4, 5]
      \<and> distinct (map die_id (dice e)))
   \<and> (reachable_cpp c \<longrightarrow>
      length (dice_cpp c) = 6
      \<and> countState Rolled (dice_cpp c) + countState Kept (dice_cpp c)
          + countState Banked (dice_cpp c) = 6
      \<and> map die_id (dice_cpp c) = [0, 1, 2, 3, 4, 5]
      \<and> distinct (map die_id (dice_cpp c)))"
proof -
  have "reachable e \<longrightarrow>
      length (dice e) = 6
      \<and> countState Rolled (dice e) + countState Kept (dice e) + countState Banked (dice e) = 6
      \<and> map die_id (dice e) = [0, 1, 2, 3, 4, 5]
      \<and> distinct (map die_id (dice e))"
  proof
    assume "reachable e"
    then have i: "map die_id (dice e) = [0, 1, 2, 3, 4, 5]" by (rule reachable_ids)
    from pool_of_ids [OF i] i show "length (dice e) = 6
      \<and> countState Rolled (dice e) + countState Kept (dice e) + countState Banked (dice e) = 6
      \<and> map die_id (dice e) = [0, 1, 2, 3, 4, 5]
      \<and> distinct (map die_id (dice e))"
      by simp
  qed
  moreover have "reachable_cpp c \<longrightarrow>
      length (dice_cpp c) = 6
      \<and> countState Rolled (dice_cpp c) + countState Kept (dice_cpp c)
          + countState Banked (dice_cpp c) = 6
      \<and> map die_id (dice_cpp c) = [0, 1, 2, 3, 4, 5]
      \<and> distinct (map die_id (dice_cpp c))"
  proof
    assume "reachable_cpp c"
    then have i: "map die_id (dice_cpp c) = [0, 1, 2, 3, 4, 5]" by (rule reachable_cpp_ids)
    from pool_of_ids [OF i] i show "length (dice_cpp c) = 6
      \<and> countState Rolled (dice_cpp c) + countState Kept (dice_cpp c)
          + countState Banked (dice_cpp c) = 6
      \<and> map die_id (dice_cpp c) = [0, 1, 2, 3, 4, 5]
      \<and> distinct (map die_id (dice_cpp c))"
      by simp
  qed
  ultimately show ?thesis by (rule conjI)
qed

theorem C8_dice_pool_witness:
  "length (dice (toggleKeep 0 ts2)) = 6
   \<and> countState Rolled (dice (toggleKeep 0 ts2)) + countState Kept (dice (toggleKeep 0 ts2))
       + countState Banked (dice (toggleKeep 0 ts2)) = 6
   \<and> map die_id (dice (toggleKeep 0 ts2)) = [0, 1, 2, 3, 4, 5]
   \<and> length (dice_cpp (toggle_keep 0 cpp2)) = 6
   \<and> countState Rolled (dice_cpp (toggle_keep 0 cpp2))
       + countState Kept (dice_cpp (toggle_keep 0 cpp2))
       + countState Banked (dice_cpp (toggle_keep 0 cpp2)) = 6
   \<and> map die_id (dice_cpp (toggle_keep 0 cpp2)) = [0, 1, 2, 3, 4, 5]"
  using reachable_toggleKeep_ts2 reachable_toggle_keep_cpp2
    C8_dice_pool [of "toggleKeep 0 ts2" "toggle_keep 0 cpp2"]
  by simp

section \<open>toggleKeep: lemmas\<close>

lemma countOf_Nil [simp]: "countOf v s [] = 0"
  by (simp add: countOf_def)

lemma countOf_Cons:
  "countOf v s (d # ds) = (if die_value d = v \<and> die_state d = s then 1 else 0) + countOf v s ds"
  by (simp add: countOf_def)

lemma promote_0 [simp]: "promote 0 v ds = ds"
  by (induction ds) simp_all

lemma kept_promote:
  "countOf v Kept (promote n v ds) = countOf v Kept ds + min n (countOf v Rolled ds)"
proof (induction ds arbitrary: n)
  case Nil
  show ?case by simp
next
  case (Cons d ds)
  show ?case
  proof (cases "die_value d = v \<and> die_state d = Rolled \<and> n > 0")
    case True
    then obtain m where n: "n = Suc m" by (cases n) auto
    with True Cons [of m] show ?thesis by (simp add: countOf_Cons)
  next
    case False
    with Cons [of n] show ?thesis by (auto simp: countOf_Cons)
  qed
qed

lemma rolled_promote:
  "countOf v Rolled (promote n v ds) = countOf v Rolled ds - min n (countOf v Rolled ds)"
proof (induction ds arbitrary: n)
  case Nil
  show ?case by simp
next
  case (Cons d ds)
  show ?case
  proof (cases "die_value d = v \<and> die_state d = Rolled \<and> n > 0")
    case True
    then obtain m where n: "n = Suc m" by (cases n) auto
    with True Cons [of m] show ?thesis by (simp add: countOf_Cons)
  next
    case False
    with Cons [of n] show ?thesis by (auto simp: countOf_Cons)
  qed
qed

lemma promoted_refl: "promoted v ds ds"
  by (simp add: promoted_def list_all2_refl)

lemma promoted_promote: "promoted v (promote n v ds) ds"
proof (induction ds arbitrary: n)
  case Nil
  show ?case by (simp add: promoted_def)
next
  case (Cons d ds)
  from Cons [of n] Cons [of "n - 1"] show ?case
    by (simp add: promoted_def)
qed

lemma findDie_None: "findDie i ds = None \<longleftrightarrow> i \<notin> die_id ` set ds"
  by (auto simp: findDie_def find_None_iff)

lemma findDie_Some:
  "findDie i ds = Some d
   \<Longrightarrow> \<exists>j<length ds. ds ! j = d \<and> die_id d = i \<and> (\<forall>j'<j. die_id (ds ! j') \<noteq> i)
         \<and> keepDie i ds = ds[j := setState Kept d]"
proof (induction ds)
  case Nil
  then show ?case by (simp add: findDie_def)
next
  case (Cons a ds)
  show ?case
  proof (cases "die_id a = i")
    case True
    with Cons.prems have "a = d" by (simp add: findDie_def)
    with True show ?thesis by (intro exI [of _ 0]) simp
  next
    case False
    with Cons.prems have "findDie i ds = Some d" by (simp add: findDie_def)
    from Cons.IH [OF this] obtain j where j: "j < length ds" "ds ! j = d" "die_id d = i"
      "\<forall>j'<j. die_id (ds ! j') \<noteq> i" "keepDie i ds = ds[j := setState Kept d]"
      by blast
    have "\<forall>j'<Suc j. die_id ((a # ds) ! j') \<noteq> i"
    proof (intro allI impI)
      fix j' assume "j' < Suc j"
      with j(4) False show "die_id ((a # ds) ! j') \<noteq> i" by (cases j') simp_all
    qed
    with j False show ?thesis by (intro exI [of _ "Suc j"]) simp
  qed
qed

lemma toggleKeep_rolled:
  assumes "status e = Rolling" and "findDie i (dice e) = Some d" and "die_state d = Rolled"
  shows "toggleKeep i e =
     (if countOf (die_value d) Rolled (dice e) \<ge> 3
      then recalcKeepScore (e\<lparr>dice := promote 3 (die_value d) (dice e)\<rparr>)
      else if die_value d = 1 \<or> die_value d = 5
      then recalcKeepScore (e\<lparr>dice := keepDie i (dice e)\<rparr>)
      else e)"
  using assms by (simp add: toggleKeep_def Let_def countOf_def)

lemma toggle_keep_rolled:
  assumes "status_cpp c = Rolling" and "findDie i (dice_cpp c) = Some d"
    and "die_state d = Rolled"
  shows "toggle_keep i c =
     (if countOf (die_value d) Rolled (dice_cpp c) + countOf (die_value d) Kept (dice_cpp c) \<ge> 3
      then (if countOf (die_value d) Kept (dice_cpp c) < 3
            then recalc_keep_score
              (c\<lparr>dice_cpp := promote (3 - countOf (die_value d) Kept (dice_cpp c)) (die_value d)
                 (dice_cpp c)\<rparr>)
            else recalc_keep_score (c\<lparr>dice_cpp := keepDie i (dice_cpp c)\<rparr>))
      else if die_value d = 1 \<or> die_value d = 5
      then recalc_keep_score (c\<lparr>dice_cpp := keepDie i (dice_cpp c)\<rparr>)
      else recalc_keep_score c)"
  using assms by (simp add: toggle_keep_def Let_def countOf_def)

lemma dice_recalcKeepScore [simp]: "dice (recalcKeepScore e) = dice e"
  by (simp add: recalcKeepScore_def)

lemma dice_recalc_keep_score [simp]: "dice_cpp (recalc_keep_score c) = dice_cpp c"
  by (simp add: recalc_keep_score_def)

lemma toggle_keep_promotes:
  assumes "status_cpp c = Rolling" and "findDie i (dice_cpp c) = Some d"
    and "die_state d = Rolled"
    and "countOf (die_value d) Rolled (dice_cpp c) + countOf (die_value d) Kept (dice_cpp c) \<ge> 3"
    and "countOf (die_value d) Kept (dice_cpp c) < 3"
  shows "countOf (die_value d) Kept (dice_cpp (toggle_keep i c)) = 3
    \<and> promoted (die_value d) (dice_cpp (toggle_keep i c)) (dice_cpp c)"
  using assms by (simp add: toggle_keep_rolled kept_promote promoted_promote)

lemma toggle_keep_single:
  assumes "status_cpp c = Rolling" and "findDie i (dice_cpp c) = Some d"
    and "die_state d = Rolled"
    and "countOf (die_value d) Rolled (dice_cpp c) + countOf (die_value d) Kept (dice_cpp c) \<ge> 3"
    and "\<not> countOf (die_value d) Kept (dice_cpp c) < 3"
  shows "\<exists>j<length (dice_cpp c). dice_cpp c ! j = d
    \<and> dice_cpp (toggle_keep i c) = (dice_cpp c)[j := setState Kept d]"
proof -
  from findDie_Some [OF assms(2)] obtain j where "j < length (dice_cpp c)" "dice_cpp c ! j = d"
    "keepDie i (dice_cpp c) = (dice_cpp c)[j := setState Kept d]"
    by blast
  with assms show ?thesis
    by (intro exI [of _ j]) (simp add: toggle_keep_rolled)
qed

lemma toggleKeep_promotes:
  assumes "status e = Rolling" and "findDie i (dice e) = Some d" and "die_state d = Rolled"
    and "countOf (die_value d) Rolled (dice e) \<ge> 3"
  shows "countOf (die_value d) Kept (dice (toggleKeep i e)) = countOf (die_value d) Kept (dice e) + 3
    \<and> promoted (die_value d) (dice (toggleKeep i e)) (dice e)"
  using assms by (simp add: toggleKeep_rolled kept_promote promoted_promote)

lemma toggleKeep_single:
  assumes "status e = Rolling" and "findDie i (dice e) = Some d" and "die_state d = Rolled"
    and "\<not> countOf (die_value d) Rolled (dice e) \<ge> 3"
    and "die_value d = 1 \<or> die_value d = 5"
  shows "\<exists>j<length (dice e). dice e ! j = d
    \<and> dice (toggleKeep i e) = (dice e)[j := setState Kept d]"
proof -
  from findDie_Some [OF assms(2)] obtain j where "j < length (dice e)" "dice e ! j = d"
    "keepDie i (dice e) = (dice e)[j := setState Kept d]"
    by blast
  with assms show ?thesis
    by (intro exI [of _ j]) (simp add: toggleKeep_rolled)
qed

lemma toggleKeep_ignored:
  assumes "status e = Rolling" and "findDie i (dice e) = Some d" and "die_state d = Rolled"
    and "\<not> countOf (die_value d) Rolled (dice e) \<ge> 3"
    and "\<not> (die_value d = 1 \<or> die_value d = 5)"
  shows "toggleKeep i e = e"
  using assms by (simp add: toggleKeep_rolled)

lemma ts3_eq:
  "ts3 = \<lparr>players = [\<lparr>player_id = 0, player_type = human, name = ''Player'', score = 0\<rparr>,
                    \<lparr>player_id = 1, player_type = computer, name = ''Computer'', score = 0\<rparr>],
          currentPlayerIndex = 0,
          dice = [D 0 2 Rolled, D 1 2 Rolled, D 2 2 Rolled, D 3 2 Rolled, D 4 3 Rolled,
                  D 5 4 Rolled],
          turnScore = 0, currentKeepScore = 0,
          status = Rolling, message = ''Welcome to Farkle! Roll to start.''\<rparr>"
  by (simp add: ts3_def newFarkleEngine_def createDice_eq rollDie_def rnd3_def enumerate_eq_zip
      upt_rec)

lemma toggleKeep_ts3:
  "toggleKeep 0 ts3 =
     ts3\<lparr>dice := [D 0 2 Kept, D 1 2 Kept, D 2 2 Kept, D 3 2 Rolled, D 4 3 Rolled, D 5 4 Rolled],
         currentKeepScore := 200\<rparr>"
proof -
  have "evaluateScoring [D 0 2 Kept, D 1 2 Kept, D 2 2 Kept] = 200"
    by (simp add: evaluateScoring_groups group_face_score_def base_score_def)
  then show ?thesis
    by (simp add: ts3_eq toggleKeep_def findDie_def recalcKeepScore_def keptDice_def setState_def)
qed

section \<open>C9: ignored clicks\<close>

lemma toggleKeep_not_rolling: "status e \<noteq> Rolling \<Longrightarrow> toggleKeep i e = e"
  by (simp add: toggleKeep_def)

lemma toggleKeep_no_die: "i \<notin> die_id ` set (dice e) \<Longrightarrow> toggleKeep i e = e"
  using findDie_None [of i "dice e"] by (simp add: toggleKeep_def)

lemma toggleKeep_banked:
  "findDie i (dice e) = Some d \<Longrightarrow> die_state d = Banked \<Longrightarrow> toggleKeep i e = e"
  by (simp add: toggleKeep_def)

lemma toggleKeep_unscoreable:
  assumes "findDie i (dice e) = Some d" and "die_state d = Rolled"
    and "die_value d \<noteq> 1" and "die_value d \<noteq> 5"
    and "countOf (die_value d) Rolled (dice e) + countOf (die_value d) Kept (dice e) < 3"
  shows "toggleKeep i e = e"
proof (cases "status e = Rolling")
  case True
  with assms toggleKeep_ignored [of e i d] show ?thesis by simp
next
  case False
  then show ?thesis by (rule toggleKeep_not_rolling)
qed

lemma toggle_keep_not_rolling: "status_cpp c \<noteq> Rolling \<Longrightarrow> toggle_keep i c = c"
  by (simp add: toggle_keep_def)

lemma toggle_keep_no_die: "i \<notin> die_id ` set (dice_cpp c) \<Longrightarrow> toggle_keep i c = c"
  using findDie_None [of i "dice_cpp c"] by (simp add: toggle_keep_def)

lemma toggle_keep_banked:
  "findDie i (dice_cpp c) = Some d \<Longrightarrow> die_state d = Banked \<Longrightarrow> toggle_keep i c = c"
  by (simp add: toggle_keep_def)

lemma toggle_keep_unscoreable:
  assumes "findDie i (dice_cpp c) = Some d" and "die_state d = Rolled"
    and "die_value d \<noteq> 1" and "die_value d \<noteq> 5"
    and "countOf (die_value d) Rolled (dice_cpp c) + countOf (die_value d) Kept (dice_cpp c) < 3"
    and "current_keep_score c = evaluate_scoring (map die_value (keptDice (dice_cpp c)))"
  shows "toggle_keep i c = c"
proof (cases "status_cpp c = Rolling")
  case True
  with assms toggle_keep_rolled [of c i d] show ?thesis
    by (simp add: recalc_keep_score_def)
next
  case False
  then show ?thesis by (rule toggle_keep_not_rolling)
qed

text \<open>
  C9: \<^verbatim>\<open>toggleKeep(dieId)\<close> returns the state it was given, and raises nothing, when the
  status is not Rolling, when no die has the id, when the die found is Banked, and when the
  die found is Rolled, its value is not 1 or 5, and fewer than three dice of its value are
  Rolled or Kept. Both engines. In the last case the C++ \<^verbatim>\<open>toggle_keep\<close> changes no die
  and still runs \<^verbatim>\<open>recalc_keep_score()\<close>, which changes nothing when \<^verbatim>\<open>current_keep_score\<close>
  is the score of the Kept dice, as it is in every reachable state.
\<close>

theorem C9_toggle_keep_ignored:
  "(status e \<noteq> Rolling \<longrightarrow> toggleKeep i e = e)
   \<and> (i \<notin> die_id ` set (dice e) \<longrightarrow> toggleKeep i e = e)
   \<and> (findDie i (dice e) = Some d \<and> die_state d = Banked \<longrightarrow> toggleKeep i e = e)
   \<and> (findDie i (dice e) = Some d \<and> die_state d = Rolled
        \<and> die_value d \<noteq> 1 \<and> die_value d \<noteq> 5
        \<and> countOf (die_value d) Rolled (dice e) + countOf (die_value d) Kept (dice e) < 3
       \<longrightarrow> toggleKeep i e = e)
   \<and> (status_cpp c \<noteq> Rolling \<longrightarrow> toggle_keep i c = c)
   \<and> (i \<notin> die_id ` set (dice_cpp c) \<longrightarrow> toggle_keep i c = c)
   \<and> (findDie i (dice_cpp c) = Some d \<and> die_state d = Banked \<longrightarrow> toggle_keep i c = c)
   \<and> (findDie i (dice_cpp c) = Some d \<and> die_state d = Rolled
        \<and> die_value d \<noteq> 1 \<and> die_value d \<noteq> 5
        \<and> countOf (die_value d) Rolled (dice_cpp c)
            + countOf (die_value d) Kept (dice_cpp c) < 3
        \<and> current_keep_score c = evaluate_scoring (map die_value (keptDice (dice_cpp c)))
       \<longrightarrow> toggle_keep i c = c)
   \<and> (reachable_cpp c \<and> findDie i (dice_cpp c) = Some d \<and> die_state d = Rolled
        \<and> die_value d \<noteq> 1 \<and> die_value d \<noteq> 5
        \<and> countOf (die_value d) Rolled (dice_cpp c)
            + countOf (die_value d) Kept (dice_cpp c) < 3
       \<longrightarrow> toggle_keep i c = c)
   \<and> (status_cpp c = Rolling \<and> findDie i (dice_cpp c) = Some d \<and> die_state d = Rolled
        \<and> die_value d \<noteq> 1 \<and> die_value d \<noteq> 5
        \<and> countOf (die_value d) Rolled (dice_cpp c)
            + countOf (die_value d) Kept (dice_cpp c) < 3
       \<longrightarrow> toggle_keep i c = recalc_keep_score c)"
proof -
  have r: "reachable_cpp c \<longrightarrow>
      current_keep_score c = evaluate_scoring (map die_value (keptDice (dice_cpp c)))"
    using reachable_cpp_keep [of c] by blast
  have u: "status_cpp c = Rolling \<and> findDie i (dice_cpp c) = Some d \<and> die_state d = Rolled
        \<and> die_value d \<noteq> 1 \<and> die_value d \<noteq> 5
        \<and> countOf (die_value d) Rolled (dice_cpp c)
            + countOf (die_value d) Kept (dice_cpp c) < 3
       \<longrightarrow> toggle_keep i c = recalc_keep_score c"
    using toggle_keep_rolled [of c i d] by simp
  show ?thesis
    using toggleKeep_not_rolling [of e i] toggleKeep_no_die [of i e] toggleKeep_banked [of i e d]
      toggleKeep_unscoreable [of i e d] toggle_keep_not_rolling [of c i]
      toggle_keep_no_die [of i c] toggle_keep_banked [of i c d]
      toggle_keep_unscoreable [of i c d] r u
    by blast
qed

theorem C9_toggle_keep_ignored_witness:
  "toggleKeep 0 ts1_won = ts1_won
   \<and> toggleKeep 7 ts2 = ts2
   \<and> toggleKeep 1 ts0 = ts0
   \<and> toggleKeep 3 ts2 = ts2
   \<and> toggle_keep 0 cpp1_won = cpp1_won
   \<and> toggle_keep 7 cpp2 = cpp2
   \<and> toggle_keep 1 cpp0 = cpp0
   \<and> toggle_keep 3 cpp2 = cpp2"
proof -
  have a: "status ts1_won \<noteq> Rolling" "status_cpp cpp1_won \<noteq> Rolling"
    by (simp_all add: ts1_won_def cpp1_won_def)
  have b: "7 \<notin> die_id ` set (dice ts2)" "7 \<notin> die_id ` set (dice_cpp cpp2)"
    by (simp_all add: ts2_eq cpp2_eq)
  have c: "findDie 1 (dice ts0) = Some (D 1 5 Banked)"
    "findDie 1 (dice_cpp cpp0) = Some (D 1 5 Banked)"
    by (simp_all add: ts0_def cpp0_def pool0_def findDie_def)
  have d: "findDie 3 (dice ts2) = Some (D 3 2 Rolled)"
    "findDie 3 (dice_cpp cpp2) = Some (D 3 2 Rolled)"
    "countOf 2 Rolled (dice ts2) + countOf 2 Kept (dice ts2) < 3"
    "countOf 2 Rolled (dice_cpp cpp2) + countOf 2 Kept (dice_cpp cpp2) < 3"
    by (simp_all add: ts2_eq cpp2_eq findDie_def countOf_def)
  have k: "current_keep_score cpp2 = evaluate_scoring (map die_value (keptDice (dice_cpp cpp2)))"
    by (simp add: cpp2_eq keptDice_def evaluate_scoring_Nil)
  have r: "reachable_cpp cpp2"
    unfolding cpp2_def by (rule c_new)
  show ?thesis
    using a b c d k r
      C9_toggle_keep_ignored [of ts1_won 0 "D 0 1 Banked" cpp1_won]
      C9_toggle_keep_ignored [of ts2 7 "D 0 1 Banked" cpp2]
      C9_toggle_keep_ignored [of ts0 1 "D 1 5 Banked" cpp0]
      C9_toggle_keep_ignored [of ts2 3 "D 3 2 Rolled" cpp2]
    by simp
qed

section \<open>The Kept dice of the reachable TypeScript states\<close>

lemma countOf_no_kept: "keptDice ds = [] \<Longrightarrow> countOf v Kept ds = 0"
  by (induction ds) (simp_all add: keptDice_def countOf_def split: if_splits)

lemma keptInGroups_no_kept: "keptDice ds = [] \<Longrightarrow> keptInGroups ds"
  by (simp add: keptInGroups_def countOf_no_kept)

lemma kept_unkeep: "countOf v Kept (unkeep w ds) = (if v = w then 0 else countOf v Kept ds)"
  by (induction ds) (auto simp: unkeep_def countOf_Cons)

lemma rolled_unkeep:
  "countOf v Rolled (unkeep w ds)
     = (if v = w then countOf v Rolled ds + countOf v Kept ds else countOf v Rolled ds)"
  by (induction ds) (auto simp: unkeep_def countOf_Cons)

lemma countOf_promote_other: "v \<noteq> w \<Longrightarrow> countOf v s (promote n w ds) = countOf v s ds"
  by (induction ds arbitrary: n) (auto simp: countOf_Cons)

lemma countOf_keepDie:
  assumes "findDie i ds = Some d" and "die_state d = Rolled"
  shows "countOf v Kept (keepDie i ds) = countOf v Kept ds + (if v = die_value d then 1 else 0)
    \<and> countOf v Rolled (keepDie i ds) + (if v = die_value d then 1 else 0) = countOf v Rolled ds"
  using assms
proof (induction ds)
  case Nil
  then show ?case by (simp add: findDie_def)
next
  case (Cons a ds)
  show ?case
  proof (cases "die_id a = i")
    case True
    with Cons.prems have "a = d" by (simp add: findDie_def)
    with True Cons.prems show ?thesis by (simp add: countOf_Cons)
  next
    case False
    with Cons.prems have "findDie i ds = Some d" by (simp add: findDie_def)
    with Cons.IH Cons.prems(2) False show ?thesis by (simp add: countOf_Cons)
  qed
qed

lemma keptInGroups_toggleKeep:
  assumes J: "keptInGroups (dice e)"
  shows "keptInGroups (dice (toggleKeep i e))"
proof (cases "status e = Rolling")
  case False
  with J show ?thesis by (simp add: toggleKeep_def)
next
  case rolling: True
  show ?thesis
  proof (cases "findDie i (dice e)")
    case None
    with J show ?thesis by (simp add: toggleKeep_def)
  next
    case (Some d)
    show ?thesis
    proof (cases "die_state d")
      case Banked
      with J Some show ?thesis by (simp add: toggleKeep_def)
    next
      case Kept
      with rolling Some have "dice (toggleKeep i e) = unkeep (die_value d) (dice e)"
        by (simp add: toggleKeep_def)
      with J show ?thesis
        by (simp add: keptInGroups_def kept_unkeep rolled_unkeep)
    next
      case Rolled
      note tk = toggleKeep_rolled [OF rolling Some Rolled]
      show ?thesis
      proof (cases "countOf (die_value d) Rolled (dice e) \<ge> 3")
        case True
        with tk have d': "dice (toggleKeep i e) = promote 3 (die_value d) (dice e)" by simp
        show ?thesis
          unfolding keptInGroups_def d'
        proof
          fix v
          show "countOf v Kept (promote 3 (die_value d) (dice e)) = 0
            \<or> countOf v Kept (promote 3 (die_value d) (dice e)) \<ge> 3
            \<or> countOf v Rolled (promote 3 (die_value d) (dice e))
                + countOf v Kept (promote 3 (die_value d) (dice e)) < 3"
          proof (cases "v = die_value d")
            case True
            with \<open>countOf (die_value d) Rolled (dice e) \<ge> 3\<close> show ?thesis
              by (simp add: kept_promote)
          next
            case False
            with J show ?thesis
              by (simp add: keptInGroups_def countOf_promote_other)
          qed
        qed
      next
        case few: False
        show ?thesis
        proof (cases "die_value d = 1 \<or> die_value d = 5")
          case False
          with tk few J show ?thesis by simp
        next
          case True
          with tk few have d': "dice (toggleKeep i e) = keepDie i (dice e)" by simp
          show ?thesis
            unfolding keptInGroups_def d'
          proof
            fix v
            from J have Jv: "countOf v Kept (dice e) = 0 \<or> countOf v Kept (dice e) \<ge> 3
              \<or> countOf v Rolled (dice e) + countOf v Kept (dice e) < 3"
              by (simp add: keptInGroups_def)
            from countOf_keepDie [OF Some Rolled, of v]
            have c: "countOf v Kept (keepDie i (dice e))
                = countOf v Kept (dice e) + (if v = die_value d then 1 else 0)"
              "countOf v Rolled (keepDie i (dice e)) + (if v = die_value d then 1 else 0)
                = countOf v Rolled (dice e)"
              by simp_all
            show "countOf v Kept (keepDie i (dice e)) = 0
              \<or> countOf v Kept (keepDie i (dice e)) \<ge> 3
              \<or> countOf v Rolled (keepDie i (dice e)) + countOf v Kept (keepDie i (dice e)) < 3"
            proof (cases "v = die_value d")
              case True
              with c few Jv show ?thesis by auto
            next
              case False
              with c Jv show ?thesis by simp
            qed
          qed
        qed
      qed
    qed
  qed
qed

lemma keptInGroups_bank:
  assumes "keptInGroups (dice e)" and "bank rnd e = Inr e'"
  shows "keptInGroups (dice e')"
proof (cases "currentKeepScore e = 0 \<and> turnScore e = 0")
  case True
  with assms show ?thesis by (simp add: bank_def)
next
  case False
  with assms(2) have "keptDice (dice e') = []"
    by (auto simp: bank_def Let_def passTurn_def split: if_splits)
  then show ?thesis by (rule keptInGroups_no_kept)
qed

lemma reachable_keptInGroups: "reachable e \<Longrightarrow> keptInGroups (dice e)"
proof (induction rule: reachable.induct)
  case (r_new rnd playerNames)
  show ?case by (simp add: newFarkleEngine_def keptInGroups_no_kept)
next
  case (r_roll e rnd)
  show ?case by (simp add: keptInGroups_no_kept)
next
  case (r_toggleKeep e dieId)
  then show ?case by (simp add: keptInGroups_toggleKeep)
next
  case (r_bank e rnd e')
  then show ?case by (simp add: keptInGroups_bank)
next
  case (r_passTurn e rnd e')
  then have "keptDice (dice e') = []"
    by (auto simp: passTurn_def Let_def split: if_splits)
  then show ?case by (rule keptInGroups_no_kept)
qed

lemma reachable_toggleKeep_three:
  assumes "reachable e" and "status e = Rolling" and "findDie i (dice e) = Some d"
    and "die_state d = Rolled"
    and n: "countOf (die_value d) Rolled (dice e) + countOf (die_value d) Kept (dice e) \<ge> 3"
    and k: "countOf (die_value d) Kept (dice e) < 3"
  shows "countOf (die_value d) Kept (dice (toggleKeep i e)) = 3
    \<and> promoted (die_value d) (dice (toggleKeep i e)) (dice e)"
proof -
  from reachable_keptInGroups [OF assms(1)]
  have "countOf (die_value d) Kept (dice e) = 0 \<or> countOf (die_value d) Kept (dice e) \<ge> 3
    \<or> countOf (die_value d) Rolled (dice e) + countOf (die_value d) Kept (dice e) < 3"
    by (simp add: keptInGroups_def)
  with n k have k0: "countOf (die_value d) Kept (dice e) = 0" by linarith
  with n have "countOf (die_value d) Rolled (dice e) \<ge> 3" by simp
  from toggleKeep_promotes [OF assms(2-4) this] k0 show ?thesis by simp
qed

section \<open>C2: toggleKeep on a Rolled die with three of its value available\<close>

text \<open>
  C2, as stated: with \<open>n \<ge> 3\<close> dice of the value Rolled or Kept, \<^verbatim>\<open>toggleKeep\<close> on a Rolled die
  ends with exactly three Kept when fewer than three were Kept, and marks only the clicked
  die Kept when three were Kept already. The TypeScript \<^verbatim>\<open>toggleKeep\<close> counts the Rolled dice
  only. In the new game opening with 2, 2, 2, 2, 3, 4, a click on die 0 keeps the first three
  twos; a click on the fourth two (\<open>n = 4\<close>, three Kept) then changes nothing. In a pool
  with one Kept and two Rolled ones (\<open>n = 3\<close>, one Kept), the click keeps the clicked die
  only: two Kept.
\<close>

theorem C2_counterexample:
  "status (toggleKeep 0 ts3) = Rolling
   \<and> findDie 3 (dice (toggleKeep 0 ts3)) = Some (D 3 2 Rolled)
   \<and> countOf 2 Rolled (dice (toggleKeep 0 ts3)) + countOf 2 Kept (dice (toggleKeep 0 ts3)) = 4
   \<and> countOf 2 Kept (dice (toggleKeep 0 ts3)) = 3
   \<and> toggleKeep 3 (toggleKeep 0 ts3) = toggleKeep 0 ts3
   \<and> status ts4 = Rolling
   \<and> findDie 1 (dice ts4) = Some (D 1 1 Rolled)
   \<and> countOf 1 Rolled (dice ts4) + countOf 1 Kept (dice ts4) = 3
   \<and> countOf 1 Kept (dice ts4) = 1
   \<and> countOf 1 Kept (dice (toggleKeep 1 ts4)) = 2"
proof -
  have a: "status (toggleKeep 0 ts3) = Rolling
   \<and> findDie 3 (dice (toggleKeep 0 ts3)) = Some (D 3 2 Rolled)
   \<and> countOf 2 Rolled (dice (toggleKeep 0 ts3)) + countOf 2 Kept (dice (toggleKeep 0 ts3)) = 4
   \<and> countOf 2 Kept (dice (toggleKeep 0 ts3)) = 3"
    by (simp add: toggleKeep_ts3 findDie_def countOf_def) (simp add: ts3_eq)
  have b: "toggleKeep 3 (toggleKeep 0 ts3) = toggleKeep 0 ts3"
    unfolding toggleKeep_ts3 by (simp add: toggleKeep_def findDie_def ts3_eq)
  have c: "status ts4 = Rolling
   \<and> findDie 1 (dice ts4) = Some (D 1 1 Rolled)
   \<and> countOf 1 Rolled (dice ts4) + countOf 1 Kept (dice ts4) = 3
   \<and> countOf 1 Kept (dice ts4) = 1"
    by (simp add: ts4_def findDie_def countOf_def)
  have d: "countOf 1 Kept (dice (toggleKeep 1 ts4)) = 2"
    by (simp add: toggleKeep_def findDie_def ts4_def countOf_def setState_def)
  from a b c d show ?thesis by simp
qed

text \<open>
  C2, amended. C++ \<^verbatim>\<open>toggle_keep\<close>, as stated: for every state with status Rolling and a
  Rolled die of value \<open>v\<close>, found by its id, with \<open>n \<ge> 3\<close> dice of value \<open>v\<close> Rolled or Kept:
  if fewer than three were Kept, exactly three of value \<open>v\<close> are Kept afterwards, the pool
  differing only by Rolled dice of value \<open>v\<close> promoted to Kept; if three or more were Kept,
  only the clicked die changes, to Kept. TypeScript \<^verbatim>\<open>toggleKeep\<close> counts the Rolled dice of
  value \<open>v\<close> only: with at least three Rolled it promotes three of them (three more Kept
  than before, so exactly three when none was Kept); with fewer, it marks only the clicked
  die Kept when \<open>v\<close> is 1 or 5, and changes nothing otherwise. In every reachable state of
  the TypeScript engine with \<open>n \<ge> 3\<close> and fewer than three Kept, none is Kept and exactly
  three are Kept afterwards, as stated.
\<close>

theorem C2_toggle_keep:
  "(status_cpp c = Rolling \<and> findDie i (dice_cpp c) = Some d \<and> die_state d = Rolled
      \<and> countOf (die_value d) Rolled (dice_cpp c) + countOf (die_value d) Kept (dice_cpp c) \<ge> 3
    \<longrightarrow>
      (if countOf (die_value d) Kept (dice_cpp c) < 3
       then countOf (die_value d) Kept (dice_cpp (toggle_keep i c)) = 3
            \<and> promoted (die_value d) (dice_cpp (toggle_keep i c)) (dice_cpp c)
       else (\<exists>j<length (dice_cpp c). dice_cpp c ! j = d
              \<and> dice_cpp (toggle_keep i c) = (dice_cpp c)[j := setState Kept d])))
   \<and> (status e = Rolling \<and> findDie i' (dice e) = Some d' \<and> die_state d' = Rolled
    \<longrightarrow>
      (if countOf (die_value d') Rolled (dice e) \<ge> 3
       then countOf (die_value d') Kept (dice (toggleKeep i' e))
              = countOf (die_value d') Kept (dice e) + 3
            \<and> promoted (die_value d') (dice (toggleKeep i' e)) (dice e)
       else if die_value d' = 1 \<or> die_value d' = 5
       then (\<exists>j<length (dice e). dice e ! j = d'
              \<and> dice (toggleKeep i' e) = (dice e)[j := setState Kept d'])
       else toggleKeep i' e = e))
   \<and> (reachable e \<and> status e = Rolling \<and> findDie i' (dice e) = Some d' \<and> die_state d' = Rolled
      \<and> countOf (die_value d') Rolled (dice e) + countOf (die_value d') Kept (dice e) \<ge> 3
      \<and> countOf (die_value d') Kept (dice e) < 3
    \<longrightarrow>
      countOf (die_value d') Kept (dice (toggleKeep i' e)) = 3
      \<and> promoted (die_value d') (dice (toggleKeep i' e)) (dice e))"
proof (intro conjI impI)
  assume a: "status_cpp c = Rolling \<and> findDie i (dice_cpp c) = Some d \<and> die_state d = Rolled
      \<and> countOf (die_value d) Rolled (dice_cpp c) + countOf (die_value d) Kept (dice_cpp c) \<ge> 3"
  show "if countOf (die_value d) Kept (dice_cpp c) < 3
       then countOf (die_value d) Kept (dice_cpp (toggle_keep i c)) = 3
            \<and> promoted (die_value d) (dice_cpp (toggle_keep i c)) (dice_cpp c)
       else (\<exists>j<length (dice_cpp c). dice_cpp c ! j = d
              \<and> dice_cpp (toggle_keep i c) = (dice_cpp c)[j := setState Kept d])"
  proof (cases "countOf (die_value d) Kept (dice_cpp c) < 3")
    case True
    with a toggle_keep_promotes [of c i d] show ?thesis by simp
  next
    case False
    with a toggle_keep_single [of c i d] show ?thesis by simp
  qed
next
  assume a: "status e = Rolling \<and> findDie i' (dice e) = Some d' \<and> die_state d' = Rolled"
  show "if countOf (die_value d') Rolled (dice e) \<ge> 3
       then countOf (die_value d') Kept (dice (toggleKeep i' e))
              = countOf (die_value d') Kept (dice e) + 3
            \<and> promoted (die_value d') (dice (toggleKeep i' e)) (dice e)
       else if die_value d' = 1 \<or> die_value d' = 5
       then (\<exists>j<length (dice e). dice e ! j = d'
              \<and> dice (toggleKeep i' e) = (dice e)[j := setState Kept d'])
       else toggleKeep i' e = e"
  proof (cases "countOf (die_value d') Rolled (dice e) \<ge> 3")
    case True
    with a toggleKeep_promotes [of e i' d'] show ?thesis by simp
  next
    case False
    show ?thesis
    proof (cases "die_value d' = 1 \<or> die_value d' = 5")
      case True
      with a False toggleKeep_single [of e i' d'] show ?thesis by simp
    next
      case f: False
      with a False toggleKeep_ignored [of e i' d'] show ?thesis by simp
    qed
  qed
next
  assume a: "reachable e \<and> status e = Rolling \<and> findDie i' (dice e) = Some d'
      \<and> die_state d' = Rolled
      \<and> countOf (die_value d') Rolled (dice e) + countOf (die_value d') Kept (dice e) \<ge> 3
      \<and> countOf (die_value d') Kept (dice e) < 3"
  with reachable_toggleKeep_three [of e i' d']
  show "countOf (die_value d') Kept (dice (toggleKeep i' e)) = 3"
    and "promoted (die_value d') (dice (toggleKeep i' e)) (dice e)"
    by simp_all
qed

theorem C2_toggle_keep_witness:
  "countOf 1 Kept (dice_cpp (toggle_keep 0 cpp2)) = 3
   \<and> promoted 1 (dice_cpp (toggle_keep 0 cpp2)) (dice_cpp cpp2)
   \<and> countOf 1 Kept (dice (toggleKeep 0 ts2)) = 3
   \<and> promoted 1 (dice (toggleKeep 0 ts2)) (dice ts2)"
proof -
  have a: "status_cpp cpp2 = Rolling \<and> findDie 0 (dice_cpp cpp2) = Some (D 0 1 Rolled)
      \<and> die_state (D 0 1 Rolled) = Rolled"
    "status ts2 = Rolling \<and> findDie 0 (dice ts2) = Some (D 0 1 Rolled)
      \<and> die_state (D 0 1 Rolled) = Rolled"
    by (simp_all add: cpp2_eq ts2_eq findDie_def)
  have n: "countOf 1 Rolled (dice_cpp cpp2) = 3" "countOf 1 Kept (dice_cpp cpp2) = 0"
    "countOf 1 Rolled (dice ts2) = 3" "countOf 1 Kept (dice ts2) = 0"
    by (simp_all add: cpp2_eq ts2_eq countOf_def)
  have r: "reachable ts2"
    unfolding ts2_def by (rule r_new)
  show ?thesis
    using a n r C2_toggle_keep [of cpp2 0 "D 0 1 Rolled" ts2 0 "D 0 1 Rolled"]
    by simp
qed

end
